theory Spec2Isabelle
  imports Complex_Main
begin

section \<open>JavaScript numbers\<close>

text \<open>
  The page computes with JavaScript numbers, the values of the binary64 format. A number
  is modelled as a finite value, one of the two infinities, or NaN. A finite value is a
  real number, and the finite values of the format are the reals \<open>m * 2^e\<close> with an integer
  mantissa below \<open>2^53\<close> in magnitude and an exponent from -1074 to 971. Every arithmetic
  operation computes the exact result and rounds it to the nearest such value, ties to the
  even mantissa, and to an infinity where the result is too large. The two zeros of the
  format are one value here, which divides like the positive zero.
\<close>

datatype jsnum = Fin real | PInf | NInf | NaN

text \<open>
  The grid of the format, with the two values \<open>2^1024\<close> and \<open>-(2^1024)\<close> at its ends:
  a result that rounds to one of these two has overflowed. \<open>huge\<close> is \<open>2^1024\<close>.
\<close>

definition doubles :: "real set" where
  "doubles = (\<lambda>(m, e). real_of_int m * 2 powr real_of_int e)
               ` ({- (2 ^ 53) .. 2 ^ 53} \<times> {- 1074 .. 971})"

definition even_doubles :: "real set" where
  "even_doubles = (\<lambda>(m, e). real_of_int (2 * m) * 2 powr real_of_int e)
               ` ({- (2 ^ 52) .. 2 ^ 52} \<times> {- 1074 .. 971})"

definition huge :: real where
  "huge = 2 powr 1024"

definition is_double :: "real \<Rightarrow> bool" where
  "is_double x = (x \<in> doubles \<and> \<bar>x\<bar> < huge)"

text \<open>Rounding to nearest, ties to even: the neighbours of a real on the grid, and the
  closer of the two.\<close>

definition round_down :: "real \<Rightarrow> real" where
  "round_down x = Max {d \<in> doubles. d \<le> x}"

definition round_up :: "real \<Rightarrow> real" where
  "round_up x = Min {d \<in> doubles. x \<le> d}"

definition nearest :: "real \<Rightarrow> real" where
  "nearest x =
     (let lo = round_down x; hi = round_up x
      in if x - lo < hi - x then lo
         else if hi - x < x - lo then hi
         else if lo \<in> even_doubles then lo else hi)"

definition binary64 :: "real \<Rightarrow> jsnum" where
  "binary64 x =
     (if huge \<le> x then PInf
      else if x \<le> - huge then NInf
      else if nearest x = huge then PInf
      else if nearest x = - huge then NInf
      else Fin (nearest x))"

text \<open>A value of the format: the finite ones lie on the grid.\<close>

fun is_binary64 :: "jsnum \<Rightarrow> bool" where
  "is_binary64 (Fin x) = is_double x"
| "is_binary64 _ = True"

text \<open>The operators \<open>+\<close>, unary and binary \<open>-\<close>, \<open>*\<close>, \<open>/\<close>, \<open><=\<close> and \<open><\<close>.\<close>

instantiation jsnum :: "{zero, one, plus, uminus, minus, times, inverse, ord}"
begin

definition zero_jsnum :: jsnum where
  "zero_jsnum = Fin 0"

definition one_jsnum :: jsnum where
  "one_jsnum = Fin 1"

fun plus_jsnum :: "jsnum \<Rightarrow> jsnum \<Rightarrow> jsnum" where
  "plus_jsnum (Fin a) (Fin b) = binary64 (a + b)"
| "plus_jsnum NaN _ = NaN"
| "plus_jsnum _ NaN = NaN"
| "plus_jsnum PInf NInf = NaN"
| "plus_jsnum NInf PInf = NaN"
| "plus_jsnum PInf _ = PInf"
| "plus_jsnum _ PInf = PInf"
| "plus_jsnum NInf _ = NInf"
| "plus_jsnum _ NInf = NInf"

fun uminus_jsnum :: "jsnum \<Rightarrow> jsnum" where
  "uminus_jsnum (Fin a) = Fin (- a)"
| "uminus_jsnum PInf = NInf"
| "uminus_jsnum NInf = PInf"
| "uminus_jsnum NaN = NaN"

definition minus_jsnum :: "jsnum \<Rightarrow> jsnum \<Rightarrow> jsnum" where
  "minus_jsnum a b = a + (- b)"

fun times_jsnum :: "jsnum \<Rightarrow> jsnum \<Rightarrow> jsnum" where
  "times_jsnum (Fin a) (Fin b) = binary64 (a * b)"
| "times_jsnum NaN _ = NaN"
| "times_jsnum _ NaN = NaN"
| "times_jsnum PInf (Fin b) = (if b = 0 then NaN else if 0 < b then PInf else NInf)"
| "times_jsnum NInf (Fin b) = (if b = 0 then NaN else if 0 < b then NInf else PInf)"
| "times_jsnum (Fin a) PInf = (if a = 0 then NaN else if 0 < a then PInf else NInf)"
| "times_jsnum (Fin a) NInf = (if a = 0 then NaN else if 0 < a then NInf else PInf)"
| "times_jsnum PInf PInf = PInf"
| "times_jsnum NInf NInf = PInf"
| "times_jsnum PInf NInf = NInf"
| "times_jsnum NInf PInf = NInf"

fun divide_jsnum :: "jsnum \<Rightarrow> jsnum \<Rightarrow> jsnum" where
  "divide_jsnum (Fin a) (Fin b) =
     (if b = 0 then (if a = 0 then NaN else if 0 < a then PInf else NInf)
      else binary64 (a / b))"
| "divide_jsnum NaN _ = NaN"
| "divide_jsnum _ NaN = NaN"
| "divide_jsnum (Fin a) _ = Fin 0"
| "divide_jsnum PInf (Fin b) = (if 0 \<le> b then PInf else NInf)"
| "divide_jsnum NInf (Fin b) = (if 0 \<le> b then NInf else PInf)"
| "divide_jsnum _ _ = NaN"

definition inverse_jsnum :: "jsnum \<Rightarrow> jsnum" where
  "inverse_jsnum a = divide (Fin 1) a"

fun less_eq_jsnum :: "jsnum \<Rightarrow> jsnum \<Rightarrow> bool" where
  "less_eq_jsnum (Fin a) (Fin b) = (a \<le> b)"
| "less_eq_jsnum NaN _ = False"
| "less_eq_jsnum _ NaN = False"
| "less_eq_jsnum NInf _ = True"
| "less_eq_jsnum _ PInf = True"
| "less_eq_jsnum _ _ = False"

fun less_jsnum :: "jsnum \<Rightarrow> jsnum \<Rightarrow> bool" where
  "less_jsnum (Fin a) (Fin b) = (a < b)"
| "less_jsnum NaN _ = False"
| "less_jsnum _ NaN = False"
| "less_jsnum PInf _ = False"
| "less_jsnum _ NInf = False"
| "less_jsnum _ _ = True"

instance ..

end

text \<open>Strict equality \<open>===\<close> on numbers: NaN is equal to nothing, itself included.\<close>

definition strict_eq :: "jsnum \<Rightarrow> jsnum \<Rightarrow> bool" where
  "strict_eq a b = (a \<noteq> NaN \<and> b \<noteq> NaN \<and> a = b)"

text \<open>A numeric literal of the source denotes the value of the format nearest to it. The
  literals 0 and 1 are written as such.\<close>

definition lit :: "real \<Rightarrow> jsnum" where
  "lit x = binary64 x"

text \<open>A loop counter: an integer, which the format holds exactly below \<open>2^53\<close>; the
  loops of the page count to 300 at most.\<close>

definition num_of_nat :: "nat \<Rightarrow> jsnum" where
  "num_of_nat i = Fin (real i)"

section \<open>The global objects\<close>

text \<open>
  The functions of the global \<open>Math\<close> object that the page calls. They are bindings that
  a script can replace, and the language leaves their values on finite arguments to the
  host, so they are part of the global state. \<open>Math.PI\<close> cannot be written: it is the
  value of the format nearest to pi.
\<close>

record math_object =
  Math_exp :: "jsnum \<Rightarrow> jsnum"
  Math_cos :: "jsnum \<Rightarrow> jsnum"
  Math_sin :: "jsnum \<Rightarrow> jsnum"

definition math_PI :: jsnum where
  "math_PI = lit pi"

text \<open>
  What the language requires of \<open>Math.exp\<close>: NaN at NaN, 1 at zero, +Infinity at
  +Infinity, zero at -Infinity, and at any other argument an approximation of the
  exponential, which is a number that is not negative, or +Infinity.
\<close>

definition conforming_exp :: "(jsnum \<Rightarrow> jsnum) \<Rightarrow> bool" where
  "conforming_exp f =
     (f NaN = NaN \<and> f PInf = PInf \<and> f NInf = Fin 0 \<and> f (Fin 0) = Fin 1
      \<and> (\<forall>a. f (Fin a) = PInf \<or> (\<exists>r. 0 \<le> r \<and> f (Fin a) = Fin r)))"

text \<open>A host whose functions round the exact value correctly.\<close>

fun rounded_exp :: "jsnum \<Rightarrow> jsnum" where
  "rounded_exp (Fin a) = binary64 (exp a)"
| "rounded_exp PInf = PInf"
| "rounded_exp NInf = Fin 0"
| "rounded_exp NaN = NaN"

fun rounded_cos :: "jsnum \<Rightarrow> jsnum" where
  "rounded_cos (Fin a) = binary64 (cos a)"
| "rounded_cos _ = NaN"

fun rounded_sin :: "jsnum \<Rightarrow> jsnum" where
  "rounded_sin (Fin a) = binary64 (sin a)"
| "rounded_sin _ = NaN"

definition standard_math :: math_object where
  "standard_math = \<lparr>Math_exp = rounded_exp, Math_cos = rounded_cos, Math_sin = rounded_sin\<rparr>"

section \<open>The drawing surface\<close>

text \<open>
  A 2D context is modelled by the list of calls and property assignments made on it, in
  order; pixels are not modelled. The text of a \<open>fillText\<close> is a list of parts: a literal,
  or a number printed by \<open>toFixed\<close> with the given count of digits. Literals that hold
  characters beyond ASCII are written as their UTF-8 bytes.
\<close>

datatype text_part = Lit string | ToFixed jsnum nat

datatype draw_cmd =
    ClearRect jsnum jsnum jsnum jsnum
  | BeginPath
  | MoveTo jsnum jsnum
  | LineTo jsnum jsnum
  | Arc jsnum jsnum jsnum jsnum jsnum
  | Stroke
  | Fill
  | SetStrokeStyle string
  | SetFillStyle string
  | SetLineWidth jsnum
  | SetLineDash "jsnum list"
  | SetFont string
  | SetTextAlign string
  | FillText "text_part list" jsnum jsnum
  | Save
  | Restore
  | Translate jsnum jsnum
  | Rotate jsnum

text \<open>
  A canvas element has a size and a 2D context, which is \<open>None\<close> when
  \<open>getContext('2d')\<close> returns \<open>null\<close>. The document maps an id to its element;
  \<open>document.getElementById\<close> is the lookup, and an element that is not a canvas has no
  \<open>getContext\<close> method.
\<close>

record canvas =
  canvas_width :: jsnum
  canvas_height :: jsnum
  context2d :: "draw_cmd list option"

datatype element = CanvasElement canvas | OtherElement

type_synonym document = "string \<rightharpoonup> element"

datatype js_error = TypeError

record margin =
  margin_top :: jsnum
  margin_right :: jsnum
  margin_bottom :: jsnum
  margin_left :: jsnum

text \<open>The global state that the methods read and change: the \<open>Math\<close> object and the
  document.\<close>

record globals =
  Math :: math_object
  document :: document

section \<open>The visualization object\<close>

text \<open>
  The fields that \<open>initializeConstants\<close> sets on an instance of
  \<open>FermiFluidsVisualization\<close>. Every method receives the instance as \<open>this\<close> and the
  global state as \<open>g\<close>.
\<close>

record viz =
  kF :: jsnum
  EF :: jsnum
  temperature :: jsnum
  interactionStrength :: jsnum

definition initializeConstants :: "viz \<Rightarrow> viz" where
  "initializeConstants this =
     this\<lparr>kF := 1, EF := 1, temperature := 0, interactionStrength := 0\<rparr>"

definition initial_viz :: viz where
  "initial_viz = \<lparr>kF = 1, EF = 1, temperature = 0, interactionStrength = 0\<rparr>"

subsection \<open>The Fermi-Dirac distribution\<close>

text \<open>
  \<open>fermiDirac(energy, mu, temperature)\<close>. The parameter \<open>temperature\<close> is written
  \<open>temp\<close> here, since it is the argument and not the field of the instance, which the body
  never reads. When the temperature is not 0 the body calls \<open>Math.exp\<close>, which it finds
  in the global state.
\<close>

definition fermiDirac :: "viz \<Rightarrow> globals \<Rightarrow> jsnum \<Rightarrow> jsnum \<Rightarrow> jsnum \<Rightarrow> jsnum" where
  "fermiDirac this g energy mu temp =
     (if strict_eq temp 0 then (if energy \<le> mu then 1 else 0)
      else 1 / (Math_exp (Math g) ((energy - mu) / temp) + 1))"


subsection \<open>getCanvasContext\<close>

text \<open>
  Returns \<open>null\<close> (here \<open>None\<close>) when the document has no element of that id. Otherwise
  it asks the element for its 2D context, sets the size of the canvas and returns the pair
  of the canvas and the context: here the id of the canvas and the canvas as it then is.
  Calling \<open>getContext\<close> on an element that has no such method throws.
\<close>

definition getCanvasContext ::
    "viz \<Rightarrow> globals \<Rightarrow> string \<Rightarrow> js_error + globals \<times> (string \<times> canvas) option" where
  "getCanvasContext this g ident =
     (case document g ident of
        None \<Rightarrow> Inr (g, None)
      | Some OtherElement \<Rightarrow> Inl TypeError
      | Some (CanvasElement c) \<Rightarrow>
          (let c' = c\<lparr>canvas_width := lit 500, canvas_height := lit 400\<rparr>
           in Inr (g\<lparr>document := (document g)(ident \<mapsto> CanvasElement c')\<rparr>,
                   Some (ident, c'))))"

text \<open>
  The calls a method makes on the context, in order. The first of them throws when the
  context is \<open>null\<close>.
\<close>

definition draw :: "globals \<Rightarrow> string \<Rightarrow> canvas \<Rightarrow> draw_cmd list \<Rightarrow> js_error + globals" where
  "draw g ident c cmds =
     (case context2d c of
        None \<Rightarrow> Inl TypeError
      | Some made \<Rightarrow>
          Inr (g\<lparr>document :=
                   (document g)(ident \<mapsto> CanvasElement (c\<lparr>context2d := Some (made @ cmds)\<rparr>))\<rparr>))"

text \<open>The loop \<open>for (let i = i0; i <= n; i++)\<close>, collecting what each round draws.\<close>

function for_loop :: "nat \<Rightarrow> nat \<Rightarrow> (nat \<Rightarrow> draw_cmd list) \<Rightarrow> draw_cmd list" where
  "for_loop i n body = (if i \<le> n then body i @ for_loop (Suc i) n body else [])"
  by pat_completeness auto
termination
  by (relation "measure (\<lambda>(i, n, body). Suc n - i)") auto

declare for_loop.simps [simp del]

text \<open>The first point of a curve starts the path, every later one extends it.\<close>

definition plot_point :: "nat \<Rightarrow> jsnum \<Rightarrow> jsnum \<Rightarrow> draw_cmd" where
  "plot_point i x y = (if i = 0 then MoveTo x y else LineTo x y)"

subsection \<open>drawAxes\<close>

definition x_tick :: "jsnum \<Rightarrow> margin \<Rightarrow> jsnum \<Rightarrow> jsnum \<Rightarrow> nat \<Rightarrow> draw_cmd list" where
  "x_tick height margin plotWidth xMax i =
     (let x = margin_left margin + (num_of_nat i / (lit 5)) * plotWidth
      in [BeginPath,
          MoveTo x (height - margin_bottom margin),
          LineTo x (height - margin_bottom margin + (lit 5)),
          Stroke]
         @ (if 0 < i \<and> i < 5
            then [BeginPath,
                  MoveTo x (margin_top margin),
                  LineTo x (height - margin_bottom margin),
                  Stroke]
            else [])
         @ [SetFillStyle ''#666'', SetFont ''12px Arial'', SetTextAlign ''center'',
            FillText [ToFixed (num_of_nat i / (lit 5) * xMax) 1] x (height - margin_bottom margin + (lit 20))])"

definition y_tick :: "jsnum \<Rightarrow> jsnum \<Rightarrow> margin \<Rightarrow> jsnum \<Rightarrow> jsnum \<Rightarrow> nat \<Rightarrow> draw_cmd list" where
  "y_tick width height margin plotHeight yMax i =
     (let y = height - margin_bottom margin - (num_of_nat i / (lit 5)) * plotHeight
      in [BeginPath,
          MoveTo (margin_left margin - (lit 5)) y,
          LineTo (margin_left margin) y,
          Stroke]
         @ (if 0 < i \<and> i < 5
            then [BeginPath,
                  MoveTo (margin_left margin) y,
                  LineTo (width - margin_right margin) y,
                  Stroke]
            else [])
         @ [SetFillStyle ''#666'', SetFont ''12px Arial'', SetTextAlign ''right'',
            FillText [ToFixed (num_of_nat i / (lit 5) * yMax) 1] (margin_left margin - (lit 10)) (y + (lit 4))])"

text \<open>
  \<open>drawAxes\<close> returns the size of the plot area, besides what it draws. Every caller
  passes \<open>xMax\<close> and \<open>yMax\<close>, so their defaults are not modelled.
\<close>

definition drawAxes ::
    "jsnum \<Rightarrow> jsnum \<Rightarrow> margin \<Rightarrow> string \<Rightarrow> string \<Rightarrow> jsnum \<Rightarrow> jsnum
      \<Rightarrow> draw_cmd list \<times> jsnum \<times> jsnum" where
  "drawAxes width height margin xLabel yLabel xMax yMax =
     (let plotWidth = width - margin_left margin - margin_right margin;
          plotHeight = height - margin_top margin - margin_bottom margin
      in ([SetStrokeStyle ''#333'', SetLineWidth (lit 2),
           BeginPath,
           MoveTo (margin_left margin) (height - margin_bottom margin),
           LineTo (width - margin_right margin) (height - margin_bottom margin),
           Stroke,
           BeginPath,
           MoveTo (margin_left margin) (margin_top margin),
           LineTo (margin_left margin) (height - margin_bottom margin),
           Stroke,
           SetFillStyle ''#333'', SetFont ''14px Arial'', SetTextAlign ''center'',
           FillText [Lit xLabel] (width / (lit 2)) (height - (lit 10)),
           Save,
           Translate (lit 15) (height / (lit 2)),
           Rotate (- math_PI / (lit 2)),
           FillText [Lit yLabel] 0 0,
           Restore,
           SetStrokeStyle ''#ddd'', SetLineWidth 1]
          @ for_loop 0 5 (x_tick height margin plotWidth xMax)
          @ for_loop 0 5 (y_tick width height margin plotHeight yMax),
          plotWidth, plotHeight))"

definition plot_margin :: margin where
  "plot_margin = \<lparr>margin_top = lit 20, margin_right = lit 20, margin_bottom = lit 60, margin_left = lit 60\<rparr>"

subsection \<open>createIntroVisualization\<close>

text \<open>One round of the loop that draws the Fermi step function: the momentum of the
  sample, then its point.\<close>

definition intro_k :: "nat \<Rightarrow> nat \<Rightarrow> jsnum" where
  "intro_k steps i = (num_of_nat i / num_of_nat steps) * lit 2"

definition intro_curve_point :: "jsnum \<Rightarrow> margin \<Rightarrow> jsnum \<Rightarrow> jsnum \<Rightarrow> nat \<Rightarrow> nat \<Rightarrow> draw_cmd list" where
  "intro_curve_point height margin plotWidth plotHeight steps i =
     (let k = intro_k steps i;
          n = (if k \<le> 1 then 1 else 0);
          x = margin_left margin + (k / (lit 2)) * plotWidth;
          y = height - margin_bottom margin - n * plotHeight
      in [plot_point i x y])"

definition intro_before_curve :: "jsnum \<Rightarrow> jsnum \<Rightarrow> draw_cmd list" where
  "intro_before_curve width height =
     [ClearRect 0 0 width height]
     @ fst (drawAxes width height plot_margin ''k/kF'' ''n(k)'' (lit 2) 1)
     @ [SetStrokeStyle ''#3498db'', SetLineWidth (lit 3), BeginPath]"

definition intro_after_curve :: "jsnum \<Rightarrow> jsnum \<Rightarrow> draw_cmd list" where
  "intro_after_curve width height =
     (let margin = plot_margin;
          (axes, plotWidth, plotHeight) = drawAxes width height margin ''k/kF'' ''n(k)'' (lit 2) 1;
          kFx = margin_left margin + (1 / (lit 2)) * plotWidth
      in [Stroke,
          SetStrokeStyle ''#e74c3c'', SetLineWidth (lit 2), SetLineDash [(lit 5), (lit 5)],
          BeginPath,
          MoveTo kFx (margin_top margin),
          LineTo kFx (height - margin_bottom margin),
          Stroke,
          SetLineDash [],
          SetFillStyle ''#3498db'', SetFont ''16px Arial'', SetTextAlign ''center'',
          FillText [Lit ''Filled states''] (margin_left margin + plotWidth * (lit 0.25)) (height / (lit 2)),
          SetFillStyle ''#e74c3c'',
          FillText [Lit ''Empty states''] (margin_left margin + plotWidth * (lit 0.75)) (height / (lit 2)),
          SetFillStyle ''#e74c3c'', SetFont ''14px Arial'',
          FillText [Lit ''Fermi surface''] (kFx + (lit 20)) (margin_top margin + (lit 30))])"

definition intro_commands :: "jsnum \<Rightarrow> jsnum \<Rightarrow> draw_cmd list" where
  "intro_commands width height =
     (let margin = plot_margin;
          (axes, plotWidth, plotHeight) = drawAxes width height margin ''k/kF'' ''n(k)'' (lit 2) 1;
          steps = 200
      in intro_before_curve width height
         @ for_loop 0 steps (intro_curve_point height margin plotWidth plotHeight steps)
         @ intro_after_curve width height)"

definition createIntroVisualization :: "viz \<Rightarrow> globals \<Rightarrow> js_error + globals" where
  "createIntroVisualization this g =
     (case getCanvasContext this g ''intro-viz'' of
        Inl e \<Rightarrow> Inl e
      | Inr (g', None) \<Rightarrow> Inr g'
      | Inr (g', Some (ident, c)) \<Rightarrow>
          draw g' ident c (intro_commands (canvas_width c) (canvas_height c)))"

subsection \<open>updateFermiSphereViz\<close>

text \<open>One round of the loop that draws the Fermi-Dirac distribution.\<close>

definition fermi_sphere_curve_point ::
    "viz \<Rightarrow> globals \<Rightarrow> jsnum \<Rightarrow> margin \<Rightarrow> jsnum \<Rightarrow> jsnum \<Rightarrow> nat \<Rightarrow> nat \<Rightarrow> draw_cmd list" where
  "fermi_sphere_curve_point this g height margin plotWidth plotHeight steps i =
     (let E = (num_of_nat i / num_of_nat steps) * (lit 3);
          f = fermiDirac this g E 1 (temperature this);
          x = margin_left margin + (E / (lit 3)) * plotWidth;
          y = height - margin_bottom margin - (f / (lit 1.2)) * plotHeight
      in [plot_point i x y])"

definition fermi_sphere_commands :: "viz \<Rightarrow> globals \<Rightarrow> jsnum \<Rightarrow> jsnum \<Rightarrow> draw_cmd list" where
  "fermi_sphere_commands this g width height =
     (let margin = plot_margin;
          (axes, plotWidth, plotHeight) =
             drawAxes width height margin ''Energy (E/EF)'' ''f(E)'' (lit 3) (lit 1.2);
          steps = 300;
          EFx = margin_left margin + (1 / (lit 3)) * plotWidth
      in [ClearRect 0 0 width height]
         @ axes
         @ [SetStrokeStyle ''#3498db'', SetLineWidth (lit 3), BeginPath]
         @ for_loop 0 steps
             (fermi_sphere_curve_point this g height margin plotWidth plotHeight steps)
         @ [Stroke,
            SetStrokeStyle ''#e74c3c'', SetLineWidth (lit 2), SetLineDash [(lit 5), (lit 5)],
            BeginPath,
            MoveTo EFx (margin_top margin),
            LineTo EFx (height - margin_bottom margin),
            Stroke,
            SetLineDash [],
            SetFillStyle ''#e74c3c'', SetFont ''14px Arial'', SetTextAlign ''left'',
            FillText [Lit ''EF''] (EFx + (lit 5)) (margin_top margin + (lit 20))]
         @ (if 0 < temperature this
            then [SetFillStyle ''#3498db'', SetFont ''14px Arial'', SetTextAlign ''center'',
                  FillText [Lit ''kBT/EF = '', ToFixed (temperature this) 2]
                    (margin_left margin + plotWidth * (lit 0.7)) (margin_top margin + (lit 40))]
            else []))"

definition updateFermiSphereViz :: "viz \<Rightarrow> globals \<Rightarrow> js_error + globals" where
  "updateFermiSphereViz this g =
     (case getCanvasContext this g ''fermi-sphere-viz'' of
        Inl e \<Rightarrow> Inl e
      | Inr (g', None) \<Rightarrow> Inr g'
      | Inr (g', Some (ident, c)) \<Rightarrow>
          draw g' ident c (fermi_sphere_commands this g' (canvas_width c) (canvas_height c)))"

definition createFermiSphereVisualization :: "viz \<Rightarrow> globals \<Rightarrow> js_error + globals" where
  "createFermiSphereVisualization this g = updateFermiSphereViz this g"

subsection \<open>updateQuasiparticleViz\<close>

text \<open>
  The momentum of sample \<open>i\<close>, which both curves of this plot use, the energy of a
  quasiparticle at a momentum, and the place of a point of the plot on the canvas.
\<close>

definition quasiparticle_k :: "jsnum \<Rightarrow> jsnum \<Rightarrow> nat \<Rightarrow> nat \<Rightarrow> jsnum" where
  "quasiparticle_k kMin kMax steps i = kMin + (num_of_nat i / num_of_nat steps) * (kMax - kMin)"

definition effectiveMass :: "viz \<Rightarrow> jsnum" where
  "effectiveMass this = 1 + interactionStrength this / (lit 3)"

definition quasiparticle_E :: "jsnum \<Rightarrow> jsnum \<Rightarrow> jsnum" where
  "quasiparticle_E m k = 1 + (k - 1) / m"

definition quasiparticle_xy ::
    "jsnum \<Rightarrow> margin \<Rightarrow> jsnum \<Rightarrow> jsnum \<Rightarrow> jsnum \<Rightarrow> jsnum \<Rightarrow> jsnum \<Rightarrow> jsnum \<Rightarrow> jsnum \<Rightarrow> jsnum
      \<Rightarrow> jsnum \<times> jsnum" where
  "quasiparticle_xy height margin plotWidth plotHeight kMin kMax EMin EMax k E =
     (margin_left margin + ((k - kMin) / (kMax - kMin)) * plotWidth,
      height - margin_bottom margin - ((E - EMin) / (EMax - EMin)) * plotHeight)"

definition free_curve_point ::
    "jsnum \<Rightarrow> margin \<Rightarrow> jsnum \<Rightarrow> jsnum \<Rightarrow> jsnum \<Rightarrow> jsnum \<Rightarrow> jsnum \<Rightarrow> jsnum \<Rightarrow> nat \<Rightarrow> nat
      \<Rightarrow> draw_cmd list" where
  "free_curve_point height margin plotWidth plotHeight kMin kMax EMin EMax steps i =
     (let k = quasiparticle_k kMin kMax steps i;
          E = k * k;
          (x, y) = quasiparticle_xy height margin plotWidth plotHeight kMin kMax EMin EMax k E
      in [plot_point i x y])"

definition quasiparticle_curve_point ::
    "jsnum \<Rightarrow> jsnum \<Rightarrow> margin \<Rightarrow> jsnum \<Rightarrow> jsnum \<Rightarrow> jsnum \<Rightarrow> jsnum \<Rightarrow> jsnum \<Rightarrow> jsnum \<Rightarrow> nat \<Rightarrow> nat
      \<Rightarrow> draw_cmd list" where
  "quasiparticle_curve_point m height margin plotWidth plotHeight kMin kMax EMin EMax steps i =
     (let k = quasiparticle_k kMin kMax steps i;
          E = quasiparticle_E m k;
          (x, y) = quasiparticle_xy height margin plotWidth plotHeight kMin kMax EMin EMax k E
      in [plot_point i x y])"

definition quasiparticle_before_curve :: "jsnum \<Rightarrow> jsnum \<Rightarrow> draw_cmd list" where
  "quasiparticle_before_curve width height =
     (let margin = plot_margin;
          kMin = lit 0.5; kMax = lit 1.5;
          EMin = lit 0.5; EMax = lit 1.5;
          plotWidth = width - margin_left margin - margin_right margin;
          plotHeight = height - margin_top margin - margin_bottom margin;
          steps = 100
      in [ClearRect 0 0 width height,
          SetStrokeStyle ''#333'', SetLineWidth (lit 2),
          BeginPath,
          MoveTo (margin_left margin) (height - margin_bottom margin),
          LineTo (width - margin_right margin) (height - margin_bottom margin),
          Stroke,
          BeginPath,
          MoveTo (margin_left margin) (margin_top margin),
          LineTo (margin_left margin) (height - margin_bottom margin),
          Stroke,
          SetStrokeStyle ''#95a5a6'', SetLineWidth (lit 2), SetLineDash [(lit 5), (lit 5)],
          BeginPath]
         @ for_loop 0 steps
             (free_curve_point height margin plotWidth plotHeight kMin kMax EMin EMax steps)
         @ [Stroke,
            SetLineDash [],
            SetStrokeStyle ''#27ae60'', SetLineWidth (lit 3),
            BeginPath])"

definition quasiparticle_after_curve :: "viz \<Rightarrow> jsnum \<Rightarrow> jsnum \<Rightarrow> draw_cmd list" where
  "quasiparticle_after_curve this width height =
     (let margin = plot_margin;
          kMin = lit 0.5; kMax = lit 1.5;
          EMin = lit 0.5; EMax = lit 1.5;
          plotWidth = width - margin_left margin - margin_right margin;
          plotHeight = height - margin_top margin - margin_bottom margin;
          kFx = margin_left margin + ((1 - kMin) / (kMax - kMin)) * plotWidth;
          EFy = height - margin_bottom margin - ((1 - EMin) / (EMax - EMin)) * plotHeight
      in [Stroke,
          SetStrokeStyle ''#e74c3c'', SetLineWidth (lit 2),
          BeginPath,
          MoveTo kFx (margin_top margin),
          LineTo kFx (height - margin_bottom margin),
          Stroke,
          BeginPath,
          MoveTo (margin_left margin) EFy,
          LineTo (width - margin_right margin) EFy,
          Stroke,
          SetFillStyle ''#95a5a6'', SetFont ''14px Arial'', SetTextAlign ''left'',
          FillText [Lit ''Free particles''] (margin_left margin + plotWidth * (lit 0.6))
            (margin_top margin + (lit 30)),
          SetFillStyle ''#27ae60'',
          FillText [Lit ''Quasiparticles''] (margin_left margin + plotWidth * (lit 0.6))
            (margin_top margin + (lit 50)),
          SetFillStyle ''#e74c3c'', SetTextAlign ''center'',
          FillText [Lit ''(kF, EF)''] (kFx + (lit 20)) (EFy - (lit 10)),
          SetFillStyle ''#2c3e50'', SetTextAlign ''left'',
          FillText [Lit ''m*/m = '', ToFixed (effectiveMass this) 2] (margin_left margin + (lit 20))
            (height - margin_bottom margin - (lit 20)),
          SetFillStyle ''#333'', SetFont ''14px Arial'', SetTextAlign ''center'',
          FillText [Lit ''k/kF''] (width / (lit 2)) (height - (lit 10)),
          Save,
          Translate (lit 15) (height / (lit 2)),
          Rotate (- math_PI / (lit 2)),
          FillText [Lit ''E/EF''] 0 0,
          Restore])"

definition quasiparticle_commands :: "viz \<Rightarrow> jsnum \<Rightarrow> jsnum \<Rightarrow> draw_cmd list" where
  "quasiparticle_commands this width height =
     (let margin = plot_margin;
          kMin = lit 0.5; kMax = lit 1.5;
          EMin = lit 0.5; EMax = lit 1.5;
          plotWidth = width - margin_left margin - margin_right margin;
          plotHeight = height - margin_top margin - margin_bottom margin;
          steps = 100
      in quasiparticle_before_curve width height
         @ for_loop 0 steps
             (quasiparticle_curve_point (effectiveMass this) height margin plotWidth plotHeight
                kMin kMax EMin EMax steps)
         @ quasiparticle_after_curve this width height)"

definition updateQuasiparticleViz :: "viz \<Rightarrow> globals \<Rightarrow> js_error + globals" where
  "updateQuasiparticleViz this g =
     (case getCanvasContext this g ''quasiparticle-viz'' of
        Inl e \<Rightarrow> Inl e
      | Inr (g', None) \<Rightarrow> Inr g'
      | Inr (g', Some (ident, c)) \<Rightarrow>
          draw g' ident c (quasiparticle_commands this (canvas_width c) (canvas_height c)))"

definition createQuasiparticleVisualization :: "viz \<Rightarrow> globals \<Rightarrow> js_error + globals" where
  "createQuasiparticleVisualization this g = updateQuasiparticleViz this g"

subsection \<open>createInteractionVisualization\<close>

text \<open>
  The loop \<open>for (let angle = 0; angle < 2 * Math.PI; angle += angleStep)\<close>. Each round
  adds the rounded step to the angle. From an angle such as -Infinity the loop does not
  end, so its result is optional: \<open>None\<close> stands for a loop that runs forever.
\<close>

partial_function (option) angle_loop ::
    "jsnum \<Rightarrow> jsnum \<Rightarrow> (jsnum \<Rightarrow> draw_cmd list) \<Rightarrow> draw_cmd list option" where
  "angle_loop angle angleStep body =
     (if angle < lit 2 * math_PI
      then Option.bind (angle_loop (angle + angleStep) angleStep body)
             (\<lambda>rest. Some (body angle @ rest))
      else Some [])"

text \<open>One round of the loop: an arrow that points away from the circle, with its head.\<close>

definition interaction_arrow ::
    "math_object \<Rightarrow> jsnum \<Rightarrow> jsnum \<Rightarrow> jsnum \<Rightarrow> jsnum \<Rightarrow> draw_cmd list" where
  "interaction_arrow m centerX centerY radius angle =
     (let x1 = centerX + radius * Math_cos m angle;
          y1 = centerY + radius * Math_sin m angle;
          x2 = centerX + (radius + lit 30) * Math_cos m angle;
          y2 = centerY + (radius + lit 30) * Math_sin m angle;
          headLength = lit 8;
          headAngle = math_PI / lit 6
      in [SetStrokeStyle ''#8e44ad'', SetLineWidth (lit 2),
          BeginPath,
          MoveTo x1 y1,
          LineTo x2 y2,
          Stroke,
          BeginPath,
          MoveTo x2 y2,
          LineTo (x2 - headLength * Math_cos m (angle - headAngle))
                 (y2 - headLength * Math_sin m (angle - headAngle)),
          MoveTo x2 y2,
          LineTo (x2 - headLength * Math_cos m (angle + headAngle))
                 (y2 - headLength * Math_sin m (angle + headAngle)),
          Stroke])"

definition interaction_commands :: "math_object \<Rightarrow> jsnum \<Rightarrow> jsnum \<Rightarrow> draw_cmd list option" where
  "interaction_commands m width height =
     (let centerX = width / lit 2;
          centerY = height / lit 2;
          radius = lit 120;
          angleStep = math_PI / lit 8
      in map_option
           (\<lambda>arrows.
              [ClearRect 0 0 width height,
               SetStrokeStyle ''#3498db'', SetFillStyle ''rgba(52, 152, 219, 0.2)'',
               SetLineWidth (lit 3),
               BeginPath,
               Arc centerX centerY radius 0 (lit 2 * math_PI),
               Fill,
               Stroke]
              @ arrows
              @ [SetFillStyle ''#2c3e50'', SetFont ''18px Arial'', SetTextAlign ''center'',
                 FillText [Lit ''Fermi Surface with Interactions''] centerX (lit 40),
                 SetFillStyle ''#8e44ad'', SetFont ''14px Arial'',
                 FillText [Lit ''Quasiparticle interactions''] centerX (height - lit 20)])
           (angle_loop 0 angleStep (interaction_arrow m centerX centerY radius)))"

text \<open>
  The method returns nothing when the loop of the arrows does not end. The first call on a
  context that is \<open>null\<close> throws before the loop starts.
\<close>

definition createInteractionVisualization :: "viz \<Rightarrow> globals \<Rightarrow> (js_error + globals) option" where
  "createInteractionVisualization this g =
     (case getCanvasContext this g ''interaction-viz'' of
        Inl e \<Rightarrow> Some (Inl e)
      | Inr (g', None) \<Rightarrow> Some (Inr g')
      | Inr (g', Some (ident, c)) \<Rightarrow>
          (case context2d c of
             None \<Rightarrow> Some (Inl TypeError)
           | Some made \<Rightarrow>
               map_option (draw g' ident c)
                 (interaction_commands (Math g') (canvas_width c) (canvas_height c))))"

subsection \<open>createTransportVisualization\<close>

definition resistivity_curve_point ::
    "jsnum \<Rightarrow> margin \<Rightarrow> jsnum \<Rightarrow> jsnum \<Rightarrow> nat \<Rightarrow> nat \<Rightarrow> draw_cmd list" where
  "resistivity_curve_point height margin plotWidth plotHeight steps i =
     (let T = (num_of_nat i / num_of_nat steps) * 1;
          rho = lit 0.1 + T * T;
          x = margin_left margin + T * plotWidth;
          y = height - margin_bottom margin - rho * plotHeight
      in [plot_point i x y])"

definition specific_heat_curve_point ::
    "jsnum \<Rightarrow> margin \<Rightarrow> jsnum \<Rightarrow> jsnum \<Rightarrow> nat \<Rightarrow> nat \<Rightarrow> draw_cmd list" where
  "specific_heat_curve_point height margin plotWidth plotHeight steps i =
     (let T = (num_of_nat i / num_of_nat steps) * 1;
          cv = T;
          x = margin_left margin + T * plotWidth;
          y = height - margin_bottom margin - cv * plotHeight
      in [plot_point i x y])"

text \<open>The two legends, whose first holds the letter rho, the sign "proportional to" and a
  superscript two, and whose second holds the sign "proportional to".\<close>

definition legend_resistivity :: string where
  "legend_resistivity =
     [CHR 0xCF, CHR 0x81] @ '' '' @ [CHR 0xE2, CHR 0x88, CHR 0x9D] @ '' T'' @ [CHR 0xC2, CHR 0xB2]"

definition legend_specific_heat :: string where
  "legend_specific_heat = ''CV '' @ [CHR 0xE2, CHR 0x88, CHR 0x9D] @ '' T''"

definition transport_commands :: "jsnum \<Rightarrow> jsnum \<Rightarrow> draw_cmd list" where
  "transport_commands width height =
     (let margin = plot_margin;
          (axes, plotWidth, plotHeight) =
             drawAxes width height margin ''Temperature (T/TF)'' ''Normalized Value'' 1 1;
          steps = 100
      in [ClearRect 0 0 width height]
         @ axes
         @ [SetStrokeStyle ''#e74c3c'', SetLineWidth (lit 3), BeginPath]
         @ for_loop 0 steps (resistivity_curve_point height margin plotWidth plotHeight steps)
         @ [Stroke,
            SetStrokeStyle ''#27ae60'', SetLineWidth (lit 3), BeginPath]
         @ for_loop 0 steps (specific_heat_curve_point height margin plotWidth plotHeight steps)
         @ [Stroke,
            SetFillStyle ''#e74c3c'', SetFont ''16px Arial'', SetTextAlign ''left'',
            FillText [Lit legend_resistivity] (margin_left margin + plotWidth * (lit 0.6))
              (margin_top margin + (lit 40)),
            SetFillStyle ''#27ae60'',
            FillText [Lit legend_specific_heat] (margin_left margin + plotWidth * (lit 0.6))
              (margin_top margin + (lit 60))])"

definition createTransportVisualization :: "viz \<Rightarrow> globals \<Rightarrow> js_error + globals" where
  "createTransportVisualization this g =
     (case getCanvasContext this g ''transport-viz'' of
        Inl e \<Rightarrow> Inl e
      | Inr (g', None) \<Rightarrow> Inr g'
      | Inr (g', Some (ident, c)) \<Rightarrow>
          draw g' ident c (transport_commands (canvas_width c) (canvas_height c)))"

section \<open>The fluid solver\<close>

text \<open>
  The solver (\<open>fluid_core.py\<close> in the README's file list) is not among the sources: only
  its documentation is. Its data and operations are modelled here from the specification.
  Field values are real numbers, an idealisation of single-precision floats. The
  specification leaves the stencils, the interpolation, the falloff kernel and the random
  seeding open, so they are parameters of the model, gathered in \<open>numerics\<close>; everything
  the specification fixes is defined.
\<close>

text \<open>Modelled from the spec: a dense grid of N rows of N values, row-major, indexed by
  row (y) and then column (x); the solver's storage is missing from the sources.\<close>

type_synonym grid = "real list list"

text \<open>Modelled from the spec: the value of a cell (GridState, missing). Every grid the
  solver builds has N rows of N cells, and cells are read inside that range.\<close>

definition cell :: "grid \<Rightarrow> nat \<Rightarrow> nat \<Rightarrow> real" where
  "cell g i j = g ! i ! j"

text \<open>Modelled from the spec: a freshly allocated N by N buffer that holds a value
  computed for every cell (the double buffering of the missing Advector and
  PressureProjector).\<close>

definition tabulate :: "nat \<Rightarrow> (nat \<Rightarrow> nat \<Rightarrow> real) \<Rightarrow> grid" where
  "tabulate n f = map (\<lambda>i. map (\<lambda>j. f i j) [0..<n]) [0..<n]"

text \<open>Modelled from the spec: an update of a field in place, cell by cell, each cell
  with its row and column (the missing Injector and dissipation).\<close>

definition map_cells :: "(nat \<Rightarrow> nat \<Rightarrow> real \<Rightarrow> real) \<Rightarrow> grid \<Rightarrow> grid" where
  "map_cells f g =
     map (\<lambda>(i, row). map (\<lambda>(j, x). f i j x) (zip [0..<length row] row)) (zip [0..<length g] g)"

text \<open>Modelled from the spec: SimulationParameters, with the names the README gives the
  constructor's arguments (the class is missing from the sources).\<close>

record SimulationParameters =
  grid_N :: nat
  dt :: real
  vel_diss :: real
  dye_diss :: real
  vort_strength :: real
  iters :: nat

text \<open>Modelled from the spec: the arguments of \<open>add_splat\<close> (missing), in the
  coordinates of the unit square.\<close>

record splat =
  splat_x :: real
  splat_y :: real
  dye_amount :: real
  splat_fx :: real
  splat_fy :: real
  radius :: real

text \<open>Modelled from the spec: SimStats, what the missing \<open>get_stats\<close> returns.\<close>

record SimStats =
  step_count :: nat
  last_div_l2 :: real

text \<open>Modelled from the spec: the state that the missing SimulationDriver owns: the
  parameters, the velocity field (u, v), the dye field, the splats queued for the next step
  and the statistics.\<close>

record FluidSim =
  params :: SimulationParameters
  vel_u :: grid
  vel_v :: grid
  dye :: grid
  queued :: "splat list"
  stats :: SimStats

text \<open>Modelled from the spec: the parts of the missing solver that the specification
  describes without fixing them. Per cell (row, column): the value semi-Lagrangian advection
  samples for a field in a velocity field, the confinement force, the divergence, the
  Jacobi update of the pressure from the divergence and the previous pressure, and the
  pressure gradient; then the falloff of a splat as a function of distance over radius, the
  L2 norm, and the splats that a random seed gives.\<close>

record numerics =
  advect_cell :: "SimulationParameters \<Rightarrow> grid \<Rightarrow> grid \<times> grid \<Rightarrow> nat \<Rightarrow> nat \<Rightarrow> real"
  confinement_force :: "SimulationParameters \<Rightarrow> grid \<times> grid \<Rightarrow> nat \<Rightarrow> nat \<Rightarrow> real \<times> real"
  divergence_cell :: "SimulationParameters \<Rightarrow> grid \<times> grid \<Rightarrow> nat \<Rightarrow> nat \<Rightarrow> real"
  jacobi_cell :: "SimulationParameters \<Rightarrow> grid \<Rightarrow> grid \<Rightarrow> nat \<Rightarrow> nat \<Rightarrow> real"
  pressure_gradient :: "SimulationParameters \<Rightarrow> grid \<Rightarrow> nat \<Rightarrow> nat \<Rightarrow> real \<times> real"
  falloff :: "real \<Rightarrow> real"
  l2_norm :: "grid \<Rightarrow> real"
  seed_splats :: "nat \<Rightarrow> splat list"

subsection \<open>GridState\<close>

text \<open>Modelled from the spec: \<open>enforce_no_through\<close> (missing) zeroes the velocity
  component normal to each of the four edges: u in the first and the last column, v in the
  first and the last row; the tangential components stay.\<close>

definition enforce_no_through :: "nat \<Rightarrow> grid \<times> grid \<Rightarrow> grid \<times> grid" where
  "enforce_no_through n uv =
     (tabulate n (\<lambda>i j. if j = 0 \<or> j = n - 1 then 0 else cell (fst uv) i j),
      tabulate n (\<lambda>i j. if i = 0 \<or> i = n - 1 then 0 else cell (snd uv) i j))"

subsection \<open>Advector\<close>

text \<open>Modelled from the spec: advection of a scalar field (missing) writes the sampled
  value of every cell into a new buffer.\<close>

definition advect_scalar :: "numerics \<Rightarrow> SimulationParameters \<Rightarrow> grid \<Rightarrow> grid \<times> grid \<Rightarrow> grid" where
  "advect_scalar nm prm fld uv = tabulate (grid_N prm) (advect_cell nm prm fld uv)"

text \<open>Modelled from the spec: advection of the velocity (missing) transports each
  component by the velocity before the advection, then re-applies the boundary rule.\<close>

definition advect_vector :: "numerics \<Rightarrow> SimulationParameters \<Rightarrow> grid \<times> grid \<Rightarrow> grid \<times> grid" where
  "advect_vector nm prm uv =
     enforce_no_through (grid_N prm)
       (advect_scalar nm prm (fst uv) uv, advect_scalar nm prm (snd uv) uv)"

subsection \<open>VorticityConfiner\<close>

text \<open>Modelled from the spec: vorticity confinement (missing) adds force times dt to the
  velocity, then re-applies the boundary rule.\<close>

definition vorticity_confinement ::
    "numerics \<Rightarrow> SimulationParameters \<Rightarrow> grid \<times> grid \<Rightarrow> grid \<times> grid" where
  "vorticity_confinement nm prm uv =
     enforce_no_through (grid_N prm)
       (tabulate (grid_N prm) (\<lambda>i j. cell (fst uv) i j + fst (confinement_force nm prm uv i j) * dt prm),
        tabulate (grid_N prm) (\<lambda>i j. cell (snd uv) i j + snd (confinement_force nm prm uv i j) * dt prm))"

subsection \<open>Dissipation and Injector\<close>

text \<open>Modelled from the spec: dissipation (missing) multiplies every value of a field by
  \<open>exp (- rate * dt)\<close>.\<close>

definition dissipate :: "real \<Rightarrow> real \<Rightarrow> grid \<Rightarrow> grid" where
  "dissipate rate step_dt g = map_cells (\<lambda>i j x. x * exp (- rate * step_dt)) g"

text \<open>Modelled from the spec: the distance from the centre of a splat to the centre of
  the cell in row i and column j, for cells of size 1 / N that cover the unit square
  (Injector, missing).\<close>

definition splat_distance :: "nat \<Rightarrow> splat \<Rightarrow> nat \<Rightarrow> nat \<Rightarrow> real" where
  "splat_distance n s i j =
     sqrt (((real j + 1 / 2) / real n - splat_x s)\<^sup>2 + ((real i + 1 / 2) / real n - splat_y s)\<^sup>2)"

text \<open>Modelled from the spec: the weight of a splat at a cell (Injector, missing): the
  falloff at the distance of the cell, taken relative to the radius. It is full at the
  centre and has decayed to zero at the radius.\<close>

definition splat_weight :: "numerics \<Rightarrow> nat \<Rightarrow> splat \<Rightarrow> nat \<Rightarrow> nat \<Rightarrow> real" where
  "splat_weight nm n s i j = falloff nm (splat_distance n s i j / radius s)"

text \<open>Modelled from the spec: what the Injector (missing) adds to one cell of a field:
  the weighted amount at a cell inside the radius, nothing at any other cell.\<close>

definition splat_cell :: "numerics \<Rightarrow> nat \<Rightarrow> splat \<Rightarrow> real \<Rightarrow> nat \<Rightarrow> nat \<Rightarrow> real \<Rightarrow> real" where
  "splat_cell nm n s amount i j x =
     (if splat_distance n s i j < radius s then x + amount * splat_weight nm n s i j else x)"

text \<open>Modelled from the spec: the Injector (missing) adds the weighted dye amount to the
  dye and the weighted direction to the velocity, at the cells of the grid inside the
  radius. The fields are the triple of dye, u and v.\<close>

definition apply_splat ::
    "numerics \<Rightarrow> SimulationParameters \<Rightarrow> splat \<Rightarrow> grid \<times> grid \<times> grid \<Rightarrow> grid \<times> grid \<times> grid" where
  "apply_splat nm prm s flds =
     (case flds of (d, u, v) \<Rightarrow>
        (map_cells (splat_cell nm (grid_N prm) s (dye_amount s)) d,
         map_cells (splat_cell nm (grid_N prm) s (splat_fx s)) u,
         map_cells (splat_cell nm (grid_N prm) s (splat_fy s)) v))"

text \<open>Modelled from the spec: several splats accumulate, one after the other (Injector,
  missing).\<close>

fun apply_splats ::
    "numerics \<Rightarrow> SimulationParameters \<Rightarrow> splat list \<Rightarrow> grid \<times> grid \<times> grid \<Rightarrow> grid \<times> grid \<times> grid" where
  "apply_splats nm prm [] flds = flds"
| "apply_splats nm prm (s # ss) flds = apply_splats nm prm ss (apply_splat nm prm s flds)"

text \<open>Modelled from the spec: a splat whose support, the open disc of its radius, lies
  outside the unit square: the distance from its centre to the square is at least the
  radius. This is the case of the claim about \<open>add_splat\<close>, which is missing.\<close>

definition outside_domain :: "splat \<Rightarrow> bool" where
  "outside_domain s =
     (radius s \<le> sqrt ((max (- splat_x s) (max 0 (splat_x s - 1)))\<^sup>2
                      + (max (- splat_y s) (max 0 (splat_y s - 1)))\<^sup>2))"

subsection \<open>PressureProjector\<close>

text \<open>Modelled from the spec: the divergence field (PressureProjector, missing),
  recomputed from the velocity.\<close>

definition divergence :: "numerics \<Rightarrow> SimulationParameters \<Rightarrow> grid \<times> grid \<Rightarrow> grid" where
  "divergence nm prm uv = tabulate (grid_N prm) (divergence_cell nm prm uv)"

text \<open>Modelled from the spec: before each sweep the pressure of a boundary cell is set to
  that of its nearest interior neighbour (PressureProjector, missing).\<close>

definition pressure_boundary :: "nat \<Rightarrow> grid \<Rightarrow> grid" where
  "pressure_boundary n p =
     tabulate n (\<lambda>i j. cell p (max 1 (min (n - 2) i)) (max 1 (min (n - 2) j)))"

text \<open>Modelled from the spec: one Jacobi sweep (PressureProjector, missing) reads the
  whole previous pressure and writes a new grid; it updates the interior cells.\<close>

definition jacobi_sweep :: "numerics \<Rightarrow> SimulationParameters \<Rightarrow> grid \<Rightarrow> grid \<Rightarrow> grid" where
  "jacobi_sweep nm prm dv p =
     (let n = grid_N prm; pb = pressure_boundary n p
      in tabulate n (\<lambda>i j. if 0 < i \<and> i < n - 1 \<and> 0 < j \<and> j < n - 1
                            then jacobi_cell nm prm dv pb i j else cell pb i j))"

text \<open>Modelled from the spec: the relaxation (PressureProjector, missing) runs a fixed
  count of sweeps.\<close>

fun jacobi_pressure :: "numerics \<Rightarrow> SimulationParameters \<Rightarrow> grid \<Rightarrow> nat \<Rightarrow> grid \<Rightarrow> grid" where
  "jacobi_pressure nm prm dv 0 p = p"
| "jacobi_pressure nm prm dv (Suc k) p = jacobi_pressure nm prm dv k (jacobi_sweep nm prm dv p)"

text \<open>Modelled from the spec: the projection (PressureProjector, missing): the
  divergence, the pressure relaxed from zero for the configured count of sweeps, the
  subtraction of its gradient from the velocity, and the boundary rule again.\<close>

definition project :: "numerics \<Rightarrow> SimulationParameters \<Rightarrow> grid \<times> grid \<Rightarrow> grid \<times> grid" where
  "project nm prm uv =
     (let n = grid_N prm;
          dv = divergence nm prm uv;
          p = jacobi_pressure nm prm dv (iters prm) (tabulate n (\<lambda>i j. 0))
      in enforce_no_through n
           (tabulate n (\<lambda>i j. cell (fst uv) i j - fst (pressure_gradient nm prm p i j)),
            tabulate n (\<lambda>i j. cell (snd uv) i j - snd (pressure_gradient nm prm p i j))))"

subsection \<open>SimulationDriver\<close>

text \<open>Modelled from the spec: the error of a rejected construction (missing).\<close>

datatype sim_error = ConfigurationError

text \<open>Modelled from the spec: the state at construction and at reset (SimulationDriver,
  missing): zero fields seeded with the splats of the random seed, no queued splat, the step
  counter at 0. No divergence has been computed then; the statistic starts at 0.\<close>

definition fresh_state :: "numerics \<Rightarrow> nat \<Rightarrow> SimulationParameters \<Rightarrow> FluidSim" where
  "fresh_state nm seed prm =
     (let n = grid_N prm;
          zero = tabulate n (\<lambda>i j. 0);
          (d, uv) = apply_splats nm prm (seed_splats nm seed) (zero, zero, zero)
      in \<lparr>params = prm,
          vel_u = fst (enforce_no_through n uv),
          vel_v = snd (enforce_no_through n uv),
          dye = d,
          queued = [],
          stats = \<lparr>step_count = 0, last_div_l2 = 0\<rparr>\<rparr>)"

text \<open>Modelled from the spec: construction (SimulationDriver, missing) rejects a grid
  size below 2 and any parameter that is not positive.\<close>

definition construct :: "numerics \<Rightarrow> nat \<Rightarrow> SimulationParameters \<Rightarrow> sim_error + FluidSim" where
  "construct nm seed prm =
     (if grid_N prm < 2 \<or> dt prm \<le> 0 \<or> vel_diss prm \<le> 0 \<or> dye_diss prm \<le> 0
         \<or> vort_strength prm \<le> 0 \<or> iters prm = 0
      then Inl ConfigurationError
      else Inr (fresh_state nm seed prm))"

text \<open>Modelled from the spec: \<open>reset\<close> (SimulationDriver, missing) starts again from a
  fresh seeding and keeps the parameters.\<close>

definition reset :: "numerics \<Rightarrow> nat \<Rightarrow> FluidSim \<Rightarrow> FluidSim" where
  "reset nm seed sim = fresh_state nm seed (params sim)"

text \<open>Modelled from the spec: \<open>add_splat\<close> (SimulationDriver, missing) queues the
  injection for the next step.\<close>

definition add_splat :: "splat \<Rightarrow> FluidSim \<Rightarrow> FluidSim" where
  "add_splat s sim = sim\<lparr>queued := queued sim @ [s]\<rparr>"

text \<open>Modelled from the spec: \<open>get_stats\<close> and \<open>get_fields\<close> (SimulationDriver,
  missing) read the state.\<close>

definition get_stats :: "FluidSim \<Rightarrow> SimStats" where
  "get_stats sim = stats sim"

definition get_fields :: "FluidSim \<Rightarrow> grid \<times> grid \<times> grid" where
  "get_fields sim = (dye sim, vel_u sim, vel_v sim)"

text \<open>Modelled from the spec: \<open>step\<close> (SimulationDriver, missing) runs the fixed
  pipeline: advect the velocity by itself, confine the vorticity, dissipate the velocity,
  apply the queued splats, project, advect the dye through the projected velocity, dissipate
  the dye; then it increments the step counter and stores the L2 norm of the divergence
  after the projection.\<close>

definition step :: "numerics \<Rightarrow> FluidSim \<Rightarrow> FluidSim" where
  "step nm sim =
     (let prm = params sim;
          n = grid_N prm;
          uv1 = advect_vector nm prm (vel_u sim, vel_v sim);
          uv2 = vorticity_confinement nm prm uv1;
          uv3 = (dissipate (vel_diss prm) (dt prm) (fst uv2),
                 dissipate (vel_diss prm) (dt prm) (snd uv2));
          (d4, uv4) = apply_splats nm prm (queued sim) (dye sim, uv3);
          uv5 = project nm prm (enforce_no_through n uv4);
          d6 = dissipate (dye_diss prm) (dt prm) (advect_scalar nm prm d4 uv5)
      in sim\<lparr>vel_u := fst uv5,
              vel_v := snd uv5,
              dye := d6,
              queued := [],
              stats := \<lparr>step_count = Suc (step_count (stats sim)),
                        last_div_l2 = l2_norm nm (divergence nm prm uv5)\<rparr>\<rparr>)"

text \<open>Numerics and a state to run the solver on: every kernel is a constant, the falloff
  is linear, and a seed gives one splat at the centre.\<close>

definition example_numerics :: numerics where
  "example_numerics =
     \<lparr>advect_cell = (\<lambda>prm fld uv i j. 1),
      confinement_force = (\<lambda>prm uv i j. (1, 1)),
      divergence_cell = (\<lambda>prm uv i j. 1),
      jacobi_cell = (\<lambda>prm dv p i j. 1),
      pressure_gradient = (\<lambda>prm p i j. (1, 1)),
      falloff = (\<lambda>r. 1 - r),
      l2_norm = (\<lambda>g. 0),
      seed_splats = (\<lambda>seed. [\<lparr>splat_x = 1 / 2, splat_y = 1 / 2, dye_amount = 1,
                                splat_fx = 1, splat_fy = 0, radius = 1 / 4\<rparr>])\<rparr>"

definition example_parameters :: SimulationParameters where
  "example_parameters =
     \<lparr>grid_N = 3, dt = 1 / 10, vel_diss = 1 / 10, dye_diss = 1 / 10, vort_strength = 6,
      iters = 2\<rparr>"

text \<open>Modelled from the spec: a field is a dense grid of N rows of N values (GridState,
  missing); the three fields that a splat touches are the dye, u and v.\<close>

definition well_formed :: "nat \<Rightarrow> grid \<Rightarrow> bool" where
  "well_formed n g = (length g = n \<and> list_all (\<lambda>row. length row = n) g)"

definition fields_well_formed :: "nat \<Rightarrow> grid \<times> grid \<times> grid \<Rightarrow> bool" where
  "fields_well_formed n flds =
     (well_formed n (fst flds) \<and> well_formed n (fst (snd flds)) \<and> well_formed n (snd (snd flds)))"

text \<open>A simulation on a grid of 3 by 3 cells, a splat of radius 0 at the centre of the
  domain, and a splat of radius 1 around the point (2, 2), which the domain does not
  meet.\<close>

definition example_sim :: FluidSim where
  "example_sim = fresh_state example_numerics 0 example_parameters"

definition zero_grid :: grid where
  "zero_grid = tabulate 3 (\<lambda>i j. 0)"

definition point_splat :: splat where
  "point_splat =
     \<lparr>splat_x = 1 / 2, splat_y = 1 / 2, dye_amount = 1, splat_fx = 1, splat_fy = 0, radius = 0\<rparr>"

definition far_splat :: splat where
  "far_splat =
     \<lparr>splat_x = 2, splat_y = 2, dye_amount = 1, splat_fx = 1, splat_fy = 0, radius = 1\<rparr>"

section \<open>Global states to run the methods on\<close>

text \<open>A canvas of the default size with nothing drawn yet, and three global states with
  the correctly rounding \<open>Math\<close>: one whose document holds a canvas for the introductory
  plot and one for the quasiparticle plot, one whose document is empty, and one whose
  document gives the id \<open>intro-viz\<close> to an element that is not a canvas, as a page has it
  that gives this id to a \<open>div\<close>.\<close>

definition blank_canvas :: canvas where
  "blank_canvas = \<lparr>canvas_width = lit 300, canvas_height = lit 150, context2d = Some []\<rparr>"

definition example_globals :: globals where
  "example_globals =
     \<lparr>Math = standard_math,
      document = [''intro-viz'' \<mapsto> CanvasElement blank_canvas,
                  ''quasiparticle-viz'' \<mapsto> CanvasElement blank_canvas]\<rparr>"

definition empty_globals :: globals where
  "empty_globals = \<lparr>Math = standard_math, document = Map.empty\<rparr>"

definition div_globals :: globals where
  "div_globals = \<lparr>Math = standard_math, document = [''intro-viz'' \<mapsto> OtherElement]\<rparr>"


section \<open>Rounding to the format\<close>

lemma finite_doubles: "finite doubles"
  unfolding doubles_def by (intro finite_imageI finite_cartesian_product) simp_all

lemma doublesI:
  assumes "\<bar>m\<bar> \<le> 2 ^ 53" and "- 1074 \<le> e" and "e \<le> 971"
  shows "real_of_int m * 2 powr real_of_int e \<in> doubles"
  unfolding doubles_def using assms by (intro image_eqI [where x = "(m, e)"]) auto

lemma doublesE:
  assumes "x \<in> doubles"
  obtains m e where "\<bar>m\<bar> \<le> 2 ^ 53" and "- 1074 \<le> e" and "e \<le> 971"
    and "x = real_of_int m * 2 powr real_of_int e"
proof -
  from assms obtain p :: "int \<times> int"
    where p: "p \<in> {- (2 ^ 53) .. 2 ^ 53} \<times> {- 1074 .. 971}"
      and x: "x = (\<lambda>(m, e). real_of_int m * 2 powr real_of_int e) p"
    unfolding doubles_def by (rule imageE)
  obtain m e where pair: "p = (m, e)" by (cases p)
  from p pair have "\<bar>m\<bar> \<le> 2 ^ 53" and "- 1074 \<le> e" and "e \<le> 971"
    by (simp_all add: abs_le_iff)
  moreover from x pair have "x = real_of_int m * 2 powr real_of_int e" by simp
  ultimately show thesis by (rule that)
qed

lemma huge_eq: "huge = 2 ^ 53 * 2 powr 971"
proof -
  have "(2::real) ^ 53 = 2 powr 53"
    by (simp only: powr_numeral zero_le_numeral)
  then have "(2::real) ^ 53 * 2 powr 971 = 2 powr (53 + 971)"
    by (simp only: powr_add)
  also have "(53::real) + 971 = 1024" by simp
  finally show ?thesis by (simp only: huge_def)
qed


lemma mantissa_exponent_le:
  assumes "\<bar>m\<bar> \<le> 2 ^ 53" and "e \<le> 971"
  shows "\<bar>real_of_int m * 2 powr real_of_int e\<bar> \<le> huge"
proof -
  have "\<bar>real_of_int m * 2 powr real_of_int e\<bar> = \<bar>real_of_int m\<bar> * 2 powr real_of_int e"
    by (simp add: abs_mult)
  also have "\<dots> \<le> 2 ^ 53 * 2 powr 971"
  proof (rule mult_mono)
    have "real_of_int \<bar>m\<bar> \<le> real_of_int (2 ^ 53)"
      using assms(1) by (simp only: of_int_le_iff)
    then show "\<bar>real_of_int m\<bar> \<le> 2 ^ 53" by simp
    have "real_of_int e \<le> 971" using assms(2) by simp
    then show "2 powr real_of_int e \<le> 2 powr 971"
      by (intro powr_mono) simp_all
    show "(0::real) \<le> 2 ^ 53" by simp
    show "0 \<le> 2 powr real_of_int e" by simp
  qed
  finally show ?thesis by (simp only: huge_eq)
qed

lemma mantissa_exponent_less:
  assumes "\<bar>m\<bar> < 2 ^ 53" and "e \<le> 971"
  shows "\<bar>real_of_int m * 2 powr real_of_int e\<bar> < huge"
proof -
  have "\<bar>real_of_int m * 2 powr real_of_int e\<bar> = \<bar>real_of_int m\<bar> * 2 powr real_of_int e"
    by (simp add: abs_mult)
  also have "\<dots> < 2 ^ 53 * 2 powr real_of_int e"
  proof (rule mult_strict_right_mono)
    have "real_of_int \<bar>m\<bar> < real_of_int (2 ^ 53)"
      using assms(1) by (simp only: of_int_less_iff)
    then show "\<bar>real_of_int m\<bar> < 2 ^ 53" by simp
    show "0 < 2 powr real_of_int e" by simp
  qed
  also have "\<dots> \<le> 2 ^ 53 * 2 powr 971"
  proof (rule mult_left_mono)
    have "real_of_int e \<le> 971" using assms(2) by simp
    then show "2 powr real_of_int e \<le> 2 powr 971"
      by (intro powr_mono) simp_all
    show "(0::real) \<le> 2 ^ 53" by simp
  qed
  finally show ?thesis by (simp only: huge_eq)
qed

lemma top_double: "huge \<in> doubles"
proof -
  have "real_of_int (2 ^ 53) * 2 powr real_of_int 971 \<in> doubles"
    by (rule doublesI) simp_all
  moreover have "real_of_int (2 ^ 53) * 2 powr real_of_int 971 = 2 ^ 53 * 2 powr 971"
    by simp
  ultimately show ?thesis by (simp only: huge_eq)
qed

lemma bottom_double: "- huge \<in> doubles"
proof -
  have "real_of_int (- (2 ^ 53)) * 2 powr real_of_int 971 \<in> doubles"
    by (rule doublesI) simp_all
  moreover have "real_of_int (- (2 ^ 53)) * 2 powr real_of_int 971 = - (2 ^ 53 * 2 powr 971)"
    by simp
  ultimately show ?thesis by (simp only: huge_eq)
qed

lemma doubles_bounded:
  assumes "x \<in> doubles"
  shows "\<bar>x\<bar> \<le> huge"
proof -
  from assms obtain m e where "\<bar>m\<bar> \<le> 2 ^ 53" and "e \<le> 971"
    and "x = real_of_int m * 2 powr real_of_int e"
    by (rule doublesE)
  then show ?thesis using mantissa_exponent_le by simp
qed

lemma is_doubleI:
  assumes "\<bar>m\<bar> < 2 ^ 53" and "- 1074 \<le> e" and "e \<le> 971"
  shows "is_double (real_of_int m * 2 powr real_of_int e)"
  unfolding is_double_def
  using doublesI [of m e] mantissa_exponent_less [of m e] assms by simp

lemma round_down_props:
  assumes "a \<in> doubles" and "a \<le> x"
  shows "round_down x \<in> doubles" and "round_down x \<le> x" and "a \<le> round_down x"
proof -
  let ?S = "{d \<in> doubles. d \<le> x}"
  have fin: "finite ?S" using finite_doubles by simp
  have ne: "?S \<noteq> {}" using assms by auto
  have "Max ?S \<in> ?S" using fin ne by (rule Max_in)
  then show "round_down x \<in> doubles" and "round_down x \<le> x"
    by (simp_all add: round_down_def)
  show "a \<le> round_down x"
    unfolding round_down_def using fin assms by (intro Max_ge) simp_all
qed

lemma round_up_props:
  assumes "b \<in> doubles" and "x \<le> b"
  shows "round_up x \<in> doubles" and "x \<le> round_up x" and "round_up x \<le> b"
proof -
  let ?S = "{d \<in> doubles. x \<le> d}"
  have fin: "finite ?S" using finite_doubles by simp
  have ne: "?S \<noteq> {}" using assms by auto
  have "Min ?S \<in> ?S" using fin ne by (rule Min_in)
  then show "round_up x \<in> doubles" and "x \<le> round_up x"
    by (simp_all add: round_up_def)
  show "round_up x \<le> b"
    unfolding round_up_def using fin assms by (intro Min_le) simp_all
qed

lemma nearest_cases: "nearest x = round_down x \<or> nearest x = round_up x"
  by (simp add: nearest_def Let_def)

lemma nearest_between:
  assumes "a \<in> doubles" and "a \<le> x" and "b \<in> doubles" and "x \<le> b"
  shows "nearest x \<in> doubles" and "a \<le> nearest x" and "nearest x \<le> b"
proof -
  note lo = round_down_props [OF assms(1,2)]
  note hi = round_up_props [OF assms(3,4)]
  from lo(2) hi(2) have "round_down x \<le> round_up x" by simp
  with lo hi nearest_cases [of x]
  show "nearest x \<in> doubles" and "a \<le> nearest x" and "nearest x \<le> b"
    by auto
qed

lemma nearest_exact:
  assumes "x \<in> doubles"
  shows "nearest x = x"
  using nearest_between(2,3) [OF assms order_refl assms order_refl] by simp

lemma binary64_exact:
  assumes "is_double x"
  shows "binary64 x = Fin x"
proof -
  from assms have x: "x \<in> doubles" and b: "\<bar>x\<bar> < huge"
    by (simp_all add: is_double_def)
  from b have "\<not> huge \<le> x" "\<not> x \<le> - huge" "x \<noteq> huge" "x \<noteq> - huge"
    by auto
  then show ?thesis
    by (simp add: binary64_def nearest_exact [OF x])
qed

lemma binary64_not_NaN: "binary64 x \<noteq> NaN"
  by (simp add: binary64_def)

lemma binary64_cases:
  obtains "binary64 x = PInf" | "binary64 x = NInf"
  | t where "binary64 x = Fin t" and "is_double t" and "t = nearest x"
    and "- huge < x" and "x < huge"
proof (cases "huge \<le> x \<or> x \<le> - huge \<or> nearest x = huge \<or> nearest x = - huge")
  case True
  then have "binary64 x = PInf \<or> binary64 x = NInf"
    by (auto simp: binary64_def)
  then show ?thesis using that(1,2) by blast
next
  case False
  then have range: "- huge < x" "x < huge" by auto
  have d: "nearest x \<in> doubles"
    using nearest_between(1) [OF bottom_double _ top_double] range by simp
  from doubles_bounded [OF d] False have "\<bar>nearest x\<bar> < huge" by auto
  with d have "is_double (nearest x)" by (simp add: is_double_def)
  moreover from False have "binary64 x = Fin (nearest x)" by (simp add: binary64_def)
  ultimately show ?thesis using that(3) range by blast
qed

lemma binary64_lower:
  assumes "is_double a" and "a \<le> x"
  obtains "binary64 x = PInf" | t where "binary64 x = Fin t" and "is_double t" and "a \<le> t"
proof (cases x rule: binary64_cases)
  case 1
  then show ?thesis using that(1) by blast
next
  case 2
  from assms have "- huge < x" by (auto simp: is_double_def)
  moreover have "\<not> huge \<le> x" using 2 by (auto simp: binary64_def split: if_splits)
  ultimately have range: "- huge < x" "x \<le> huge" by auto
  have "a \<le> nearest x"
    using nearest_between(2) [OF _ assms(2) top_double range(2)] assms(1)
    by (simp add: is_double_def)
  moreover from assms(1) have "- huge < a" by (auto simp: is_double_def)
  ultimately have "nearest x \<noteq> - huge" by auto
  with 2 range show ?thesis by (auto simp: binary64_def split: if_splits)
next
  case (3 t)
  have "a \<le> nearest x"
    using nearest_between(2) [OF _ assms(2) top_double] assms(1) 3(5)
    by (simp add: is_double_def)
  with 3 show ?thesis using that(2) by blast
qed

lemma binary64_upper:
  assumes "is_double b" and "x \<le> b"
  obtains "binary64 x = NInf" | t where "binary64 x = Fin t" and "is_double t" and "t \<le> b"
proof (cases x rule: binary64_cases)
  case 2
  then show ?thesis using that(1) by blast
next
  case 1
  from assms have up: "x < huge" by (auto simp: is_double_def)
  have "nearest x \<le> b"
  proof (cases "- huge \<le> x")
    case True
    then show ?thesis
      using nearest_between(3) [OF bottom_double True _ assms(2)] assms(1)
      by (simp add: is_double_def)
  next
    case False
    with 1 up show ?thesis by (auto simp: binary64_def split: if_splits)
  qed
  moreover from assms(1) have "b < huge" by (auto simp: is_double_def)
  ultimately have "nearest x \<noteq> huge" by auto
  with 1 up show ?thesis by (auto simp: binary64_def split: if_splits)
next
  case (3 t)
  have "nearest x \<le> b"
    using nearest_between(3) [OF bottom_double _ _ assms(2)] assms(1) 3(4)
    by (simp add: is_double_def)
  with 3 show ?thesis using that(2) by blast
qed

lemma binary64_between:
  assumes "is_double a" and "a \<le> x" and "is_double b" and "x \<le> b"
  obtains t where "binary64 x = Fin t" and "is_double t" and "a \<le> t" and "t \<le> b"
proof -
  from assms have d: "a \<in> doubles" "b \<in> doubles" and r: "- huge < a" "b < huge"
    by (auto simp: is_double_def)
  note n = nearest_between [OF d(1) assms(2) d(2) assms(4)]
  from n r have "\<bar>nearest x\<bar> < huge" by auto
  with n(1) have "is_double (nearest x)" by (simp add: is_double_def)
  moreover from n r assms have "binary64 x = Fin (nearest x)"
    by (auto simp: binary64_def)
  ultimately show ?thesis using that n by blast
qed

subsection \<open>Values on the grid\<close>

lemma is_double_dyadic:
  assumes "\<bar>m\<bar> < 2 ^ 53" and "n \<le> 1074" and "x = real_of_int m / 2 ^ n"
  shows "is_double x"
proof -
  have "is_double (real_of_int m * 2 powr real_of_int (- int n))"
    using assms(1,2) by (intro is_doubleI) simp_all
  moreover have "2 powr real_of_int (- int n) = 1 / 2 ^ n"
    by (simp add: powr_minus powr_realpow inverse_eq_divide)
  ultimately show ?thesis using assms(3) by simp
qed

lemma is_double_int:
  assumes "\<bar>m\<bar> < 2 ^ 53"
  shows "is_double (real_of_int m)"
  using is_double_dyadic [OF assms, of 0] by simp

lemma is_double_zero [simp]: "is_double 0"
  using is_double_int [of 0] by simp

lemma is_double_one [simp]: "is_double 1"
  using is_double_int [of 1] by simp

lemma is_double_minus_one [simp]: "is_double (- 1)"
  using is_double_int [of "- 1"] by simp

lemma is_double_numeral [simp]:
  "numeral k < (2 ^ 53 :: int) \<Longrightarrow> is_double (numeral k)"
  using is_double_int [of "numeral k"] by simp

lemma is_double_neg_numeral [simp]:
  "numeral k < (2 ^ 53 :: int) \<Longrightarrow> is_double (- numeral k)"
  using is_double_int [of "- numeral k"] by simp

lemma is_double_nat:
  "i \<le> 2 ^ 52 \<Longrightarrow> is_double (real i)"
  using is_double_int [of "int i"] by simp

lemma is_double_half [simp]: "is_double (1 / 2)"
  by (rule is_double_dyadic [of 1 1]) simp_all

lemma is_double_three_halves [simp]: "is_double (3 / 2)"
  by (rule is_double_dyadic [of 3 1]) simp_all

lemma is_double_quarter [simp]: "is_double (1 / 4)"
  by (rule is_double_dyadic [of 1 2]) simp_all

lemma is_double_three_quarters [simp]: "is_double (3 / 4)"
  by (rule is_double_dyadic [of 3 2]) simp_all

lemma binary64_simp [simp]: "is_double x \<Longrightarrow> binary64 x = Fin x"
  by (rule binary64_exact)

lemma lit_exact: "is_double x \<Longrightarrow> lit x = Fin x"
  by (simp add: lit_def)

lemma Fin_minus: "Fin a - Fin b = binary64 (a - b)"
  by (simp add: minus_jsnum_def)

lemmas jsnum_arith = zero_jsnum_def one_jsnum_def Fin_minus num_of_nat_def lit_exact

subsection \<open>The exponential of the rounding host\<close>

lemma conforming_rounded_exp: "conforming_exp rounded_exp"
proof -
  have "rounded_exp (Fin a) = PInf \<or> (\<exists>r. 0 \<le> r \<and> rounded_exp (Fin a) = Fin r)" for a
  proof (rule binary64_lower [of 0 "exp a"])
    show "is_double 0" by simp
    show "0 \<le> exp a" by simp
  next
    assume "binary64 (exp a) = PInf"
    then show ?thesis by simp
  next
    fix t assume "binary64 (exp a) = Fin t" and "0 \<le> t"
    then show ?thesis by simp
  qed
  then show ?thesis by (simp add: conforming_exp_def)
qed

subsection \<open>The range of the distribution\<close>

lemma add_one_cases:
  assumes "0 \<le> r"
  obtains "Fin r + 1 = PInf" | t where "Fin r + 1 = Fin t" and "1 \<le> t"
proof (rule binary64_lower [of 1 "r + 1"])
  show "is_double 1" by simp
  show "1 \<le> r + 1" using assms by simp
next
  assume "binary64 (r + 1) = PInf"
  then show thesis using that(1) by (simp add: one_jsnum_def)
next
  fix t assume "binary64 (r + 1) = Fin t" and "1 \<le> t"
  then show thesis using that(2) by (simp add: one_jsnum_def)
qed

lemma unit_quotient:
  assumes "1 \<le> t"
  obtains u where "1 / Fin t = Fin u" and "0 \<le> u" and "u \<le> 1"
proof (rule binary64_between [of 0 "1 / t" 1])
  show "is_double 0" and "is_double 1" by simp_all
  show "0 \<le> 1 / t" and "1 / t \<le> 1" using assms by simp_all
next
  fix u assume "binary64 (1 / t) = Fin u" and "0 \<le> u" and "u \<le> 1"
  moreover have "t \<noteq> 0" using assms by auto
  ultimately show thesis using that by (simp add: one_jsnum_def)
qed

lemma in_unit_interval:
  assumes "conforming_exp f" and "q \<noteq> NaN"
  shows "0 \<le> 1 / (f q + 1) \<and> 1 / (f q + 1) \<le> 1"
proof -
  from assms(1) have inf: "f PInf = PInf" and ninf: "f NInf = Fin 0"
    and fin: "\<And>a. f (Fin a) = PInf \<or> (\<exists>r. 0 \<le> r \<and> f (Fin a) = Fin r)"
    by (simp_all add: conforming_exp_def)
  have "f q = PInf \<or> (\<exists>r. 0 \<le> r \<and> f q = Fin r)"
    using assms(2) inf ninf fin by (cases q) auto
  then show ?thesis
  proof
    assume "f q = PInf"
    then show ?thesis by (simp add: jsnum_arith)
  next
    assume "\<exists>r. 0 \<le> r \<and> f q = Fin r"
    then obtain r where r: "0 \<le> r" and q: "f q = Fin r" by blast
    from r show ?thesis
    proof (cases rule: add_one_cases)
      case 1
      then show ?thesis by (simp add: q jsnum_arith)
    next
      case (2 t)
      from 2(2) obtain u where u: "1 / Fin t = Fin u" and "0 \<le> u" and "u \<le> 1"
        by (rule unit_quotient)
      then show ?thesis
        unfolding q 2(1) u by (simp add: zero_jsnum_def one_jsnum_def)
    qed
  qed
qed

lemma not_in_unit_interval:
  assumes "conforming_exp f"
  shows "1 / (f NaN + 1) = NaN"
  using assms by (simp add: conforming_exp_def one_jsnum_def)

lemma finite_quotient_not_NaN:
  assumes "t \<noteq> 0"
  shows "(Fin e - Fin m) / Fin t \<noteq> NaN"
proof (cases "e - m" rule: binary64_cases)
  case 1
  then show ?thesis by (simp add: Fin_minus)
next
  case 2
  then show ?thesis by (simp add: Fin_minus)
next
  case (3 d)
  then show ?thesis using assms by (simp add: Fin_minus binary64_not_NaN)
qed

subsection \<open>The samples of the introductory plot\<close>

lemma intro_k_filled:
  assumes "i \<le> 100"
  obtains u where "intro_k 200 i = Fin u" and "0 \<le> u" and "u \<le> 1"
proof -
  have "0 \<le> real i / 200" and "real i / 200 \<le> 1 / 2" using assms by simp_all
  then obtain t where t: "binary64 (real i / 200) = Fin t" and "0 \<le> t" and "t \<le> 1 / 2"
    using binary64_between [of 0 "real i / 200" "1 / 2"] by auto
  then have "0 \<le> t * 2" and "t * 2 \<le> 1" by simp_all
  then obtain u where "binary64 (t * 2) = Fin u" and "0 \<le> u" and "u \<le> 1"
    using binary64_between [of 0 "t * 2" 1] by auto
  then show thesis using that t by (simp add: intro_k_def jsnum_arith)
qed

lemma intro_k_empty:
  assumes "100 < i" and "i \<le> 200"
  obtains u where "intro_k 200 i = Fin u" and "1 < u" and "u \<le> 2"
proof -
  have lo: "is_double (129 / 256)" by (rule is_double_dyadic [of 129 8]) simp_all
  have lo2: "is_double (129 / 128)" by (rule is_double_dyadic [of 129 7]) simp_all
  have "101 \<le> real i" using assms(1) by simp
  then have "129 / 256 \<le> real i / 200" by simp
  moreover have "real i / 200 \<le> 1" using assms(2) by simp
  ultimately obtain t where t: "binary64 (real i / 200) = Fin t"
    and "129 / 256 \<le> t" and "t \<le> 1"
    using binary64_between [OF lo _ is_double_one] by blast
  then have "129 / 128 \<le> t * 2" and "t * 2 \<le> 2" by simp_all
  then obtain u where "binary64 (t * 2) = Fin u" and "129 / 128 \<le> u" and "u \<le> 2"
    using binary64_between [OF lo2, of "t * 2" 2] by auto
  then show thesis using that t by (simp add: intro_k_def jsnum_arith)
qed

subsection \<open>The spacing of the grid\<close>

lemma is_doubleE:
  assumes "is_double x"
  obtains m e where "\<bar>m\<bar> < 2 ^ 53" and "- 1074 \<le> e" and "e \<le> 971"
    and "x = real_of_int m * 2 powr real_of_int e"
proof -
  from assms have x: "x \<in> doubles" and less: "\<bar>x\<bar> < huge"
    by (simp_all add: is_double_def)
  from x obtain m e where m: "\<bar>m\<bar> \<le> 2 ^ 53" and e: "- 1074 \<le> e" "e \<le> 971"
    and eq: "x = real_of_int m * 2 powr real_of_int e"
    by (rule doublesE)
  show thesis
  proof (cases "\<bar>m\<bar> < 2 ^ 53")
    case True
    then show ?thesis using e eq by (rule that)
  next
    case False
    with m have top: "\<bar>m\<bar> = 2 ^ 53" by simp
    have "e \<noteq> 971"
    proof
      assume "e = 971"
      then have "\<bar>x\<bar> = 2 ^ 53 * 2 powr 971"
        using top by (simp add: eq abs_mult flip: of_int_abs)
      with less show False by (simp only: huge_eq)
    qed
    with e have e': "e + 1 \<le> 971" "- 1074 \<le> e + 1" by simp_all
    from top have "m = 2 ^ 53 \<or> m = - (2 ^ 53)" by linarith
    then obtain h where h: "m = 2 * h" and hb: "\<bar>h\<bar> < 2 ^ 53"
    proof
      assume "m = 2 ^ 53"
      then show thesis by (intro that [of "2 ^ 52"]) simp_all
    next
      assume "m = - (2 ^ 53)"
      then show thesis by (intro that [of "- (2 ^ 52)"]) simp_all
    qed
    have "x = real_of_int h * 2 powr real_of_int (e + 1)"
      by (simp add: eq h powr_add)
    with hb e' show ?thesis by (intro that [of h "e + 1"]) simp_all
  qed
qed

lemma double_spacing:
  assumes "is_double x" and "2 powr real_of_int p \<le> \<bar>x\<bar>"
  obtains k :: int where "x = real_of_int k * 2 powr real_of_int (p - 52)"
proof -
  from assms(1) obtain m e where m: "\<bar>m\<bar> < 2 ^ 53"
    and eq: "x = real_of_int m * 2 powr real_of_int e"
    by (rule is_doubleE)
  have "\<bar>x\<bar> = \<bar>real_of_int m\<bar> * 2 powr real_of_int e"
    by (simp add: eq abs_mult)
  also have "\<dots> < 2 ^ 53 * 2 powr real_of_int e"
  proof (rule mult_strict_right_mono)
    have "real_of_int \<bar>m\<bar> < real_of_int (2 ^ 53)"
      using m by (simp only: of_int_less_iff)
    then show "\<bar>real_of_int m\<bar> < 2 ^ 53" by simp
    show "0 < 2 powr real_of_int e" by simp
  qed
  also have "\<dots> = 2 powr (53 + real_of_int e)"
    by (simp add: powr_add powr_realpow)
  finally have "\<bar>x\<bar> < 2 powr (53 + real_of_int e)" .
  with assms(2) have "2 powr real_of_int p < 2 powr (53 + real_of_int e)"
    by (rule le_less_trans)
  then have "real_of_int p < 53 + real_of_int e"
    by (simp only: powr_less_cancel_iff one_less_numeral_iff semiring_norm)
  then have le: "p - 52 \<le> e" by linarith
  define n where "n = nat (e - (p - 52))"
  have "real_of_int e = real n + real_of_int (p - 52)"
    using le by (simp add: n_def)
  then have "2 powr real_of_int e = 2 ^ n * 2 powr real_of_int (p - 52)"
    by (simp only: powr_add powr_realpow zero_less_numeral)
  then have "x = real_of_int (m * 2 ^ n) * 2 powr real_of_int (p - 52)"
    by (simp add: eq)
  then show thesis by (rule that)
qed

text \<open>Between -3 and its neighbours on the grid, which lie \<open>2^-51\<close> away, there is no
  value of the format.\<close>

lemma near_minus_three:
  assumes "is_double F" and "F \<noteq> - 3"
  shows "F \<le> - 3 - 1 / 2 ^ 51 \<or> - 3 + 1 / 2 ^ 51 \<le> F"
proof (cases "2 \<le> \<bar>F\<bar>")
  case False
  then have "- 2 < F" by simp
  moreover have "(1::real) / 2 ^ 51 \<le> 1" by simp
  ultimately show ?thesis by linarith
next
  case True
  then have "2 powr real_of_int 1 \<le> \<bar>F\<bar>" by simp
  with assms(1) obtain k :: int where "F = real_of_int k * 2 powr real_of_int (1 - 52)"
    by (rule double_spacing)
  moreover have "2 powr real_of_int (1 - 52) = 1 / 2 ^ 51"
    by (simp add: powr_minus_divide powr_realpow)
  ultimately have F: "F = real_of_int k / 2 ^ 51" by simp
  have three: "(3::real) = real_of_int (3 * 2 ^ 51) / 2 ^ 51" by simp
  from assms(2) have "k \<noteq> - (3 * 2 ^ 51)"
    unfolding F by (auto simp: field_simps)
  then consider "k \<le> - (3 * 2 ^ 51) - 1" | "- (3 * 2 ^ 51) + 1 \<le> k" by linarith
  then show ?thesis
  proof cases
    case 1
    then have "real_of_int k \<le> real_of_int (- (3 * 2 ^ 51) - 1)"
      by (simp only: of_int_le_iff)
    then have "real_of_int k / 2 ^ 51 \<le> real_of_int (- (3 * 2 ^ 51) - 1) / 2 ^ 51"
      by (rule divide_right_mono) simp
    then show ?thesis unfolding F by (simp add: field_simps)
  next
    case 2
    then have "real_of_int (- (3 * 2 ^ 51) + 1) \<le> real_of_int k"
      by (simp only: of_int_le_iff)
    then have "real_of_int (- (3 * 2 ^ 51) + 1) / 2 ^ 51 \<le> real_of_int k / 2 ^ 51"
      by (rule divide_right_mono) simp
    then show ?thesis unfolding F by (simp add: field_simps)
  qed
qed

subsection \<open>The effective mass\<close>

lemma two_less_huge: "2 < huge"
proof -
  have "(1::real) \<le> 2 powr 971" by (rule ge_one_powr_ge_zero) simp_all
  then have "(2::real) ^ 53 * 1 \<le> 2 ^ 53 * 2 powr 971"
    by (intro mult_left_mono) simp_all
  then show ?thesis by (simp only: huge_eq) simp
qed

lemma no_double_below_minus_one:
  assumes "d \<in> doubles" and "- 1 - 1 / 2 ^ 52 < d" and "d < - 1"
  shows False
proof -
  from assms(2,3) have "\<bar>d\<bar> < 2" by (simp add: abs_if)
  with two_less_huge assms(1) have d: "is_double d" by (simp add: is_double_def)
  from assms(3) have "2 powr real_of_int 0 \<le> \<bar>d\<bar>" by simp
  with d obtain k :: int where "d = real_of_int k * 2 powr real_of_int (0 - 52)"
    by (rule double_spacing)
  moreover have "2 powr real_of_int (0 - 52) = 1 / 2 ^ 52"
    by (simp add: powr_minus_divide powr_realpow)
  ultimately have eq: "d = real_of_int k / 2 ^ 52" by simp
  from assms(3) have "real_of_int k < real_of_int (- (2 ^ 52))"
    unfolding eq by (simp add: field_simps)
  then have upper: "k < - (2 ^ 52)" by (simp only: of_int_less_iff)
  from assms(2) have "real_of_int (- (2 ^ 52) - 1) < real_of_int k"
    unfolding eq by (simp add: field_simps)
  then have "- (2 ^ 52) - 1 < k" by (simp only: of_int_less_iff)
  with upper show False by linarith
qed

lemma quotient_above:
  assumes "- 3 + 1 / 2 ^ 51 \<le> F"
  obtains "Fin F / lit 3 = PInf" | t where "Fin F / lit 3 = Fin t" and "- 1 + 1 / 2 ^ 53 \<le> t"
proof (rule binary64_lower [of "- 1 + 1 / 2 ^ 53" "F / 3"])
  show "is_double (- 1 + 1 / 2 ^ 53)"
    by (rule is_double_dyadic [of "- (2 ^ 53 - 1)" 53]) simp_all
  show "- 1 + 1 / 2 ^ 53 \<le> F / 3" using assms by simp
next
  assume "binary64 (F / 3) = PInf"
  then show thesis using that(1) by (simp add: lit_exact)
next
  fix t assume "binary64 (F / 3) = Fin t" and "- 1 + 1 / 2 ^ 53 \<le> t"
  then show thesis using that(2) by (simp add: lit_exact)
qed

lemma quotient_below:
  assumes "F \<le> - 3 - 1 / 2 ^ 51"
  obtains "Fin F / lit 3 = NInf" | t where "Fin F / lit 3 = Fin t" and "t \<le> - 1 - 1 / 2 ^ 52"
proof -
  define lo :: real where "lo = - 1 - 1 / 2 ^ 52"
  have lo: "is_double lo"
    unfolding lo_def by (rule is_double_dyadic [of "- (2 ^ 52 + 1)" 52]) simp_all
  have x0: "F / 3 \<le> - 1 - (4 / 3) / 2 ^ 53" using assms by simp
  have result: "binary64 (F / 3) = NInf \<or> (\<exists>t. binary64 (F / 3) = Fin t \<and> t \<le> lo)"
  proof (cases "F / 3 \<le> lo")
    case True
    with lo show ?thesis by (rule binary64_upper) auto
  next
    case False
    then have above: "lo < F / 3" by simp
    from x0 have below: "F / 3 < - 1" and closer: "F / 3 < - 1 - 1 / 2 ^ 53"
      by (simp_all add: field_simps)
    have lo_in: "lo \<in> doubles" and one_in: "- 1 \<in> doubles"
      using lo is_double_neg_numeral [of num.One] by (simp_all add: is_double_def)
    have down: "round_down (F / 3) = lo"
      unfolding round_down_def
    proof (rule Max_eqI)
      show "finite {d \<in> doubles. d \<le> F / 3}" using finite_doubles by simp
      show "lo \<in> {d \<in> doubles. d \<le> F / 3}" using lo_in above by simp
      fix y assume "y \<in> {d \<in> doubles. d \<le> F / 3}"
      then have y: "y \<in> doubles" "y < - 1" using below by auto
      show "y \<le> lo"
      proof (rule ccontr)
        assume "\<not> y \<le> lo"
        then have "- 1 - 1 / 2 ^ 52 < y" by (simp add: lo_def)
        with y show False using no_double_below_minus_one [of y] by blast
      qed
    qed
    have up: "round_up (F / 3) = - 1"
      unfolding round_up_def
    proof (rule Min_eqI)
      show "finite {d \<in> doubles. F / 3 \<le> d}" using finite_doubles by simp
      show "- 1 \<in> {d \<in> doubles. F / 3 \<le> d}" using one_in below by simp
      fix y assume "y \<in> {d \<in> doubles. F / 3 \<le> d}"
      then have y: "y \<in> doubles" "- 1 - 1 / 2 ^ 52 < y" using above by (auto simp: lo_def)
      show "- 1 \<le> y"
      proof (rule ccontr)
        assume "\<not> - 1 \<le> y"
        then have "y < - 1" by simp
        with y show False using no_double_below_minus_one [of y] by blast
      qed
    qed
    have "F / 3 - lo < - 1 - F / 3" using closer by (simp add: lo_def field_simps)
    then have near: "nearest (F / 3) = lo"
      by (simp add: nearest_def down up)
    have "\<bar>lo\<bar> < huge" using lo by (simp add: is_double_def)
    moreover have "\<bar>F / 3\<bar> < huge" using above below \<open>\<bar>lo\<bar> < huge\<close> by (simp add: abs_if split: if_splits)
    ultimately have "binary64 (F / 3) = Fin lo"
      using near by (auto simp: binary64_def abs_if split: if_splits)
    then show ?thesis by simp
  qed
  then show thesis using that by (auto simp: lit_exact lo_def)
qed

lemma mass_above:
  assumes "- 1 + 1 / 2 ^ 53 \<le> t"
  obtains "1 + Fin t = PInf" | s where "1 + Fin t = Fin s" and "0 < s"
proof (rule binary64_lower [of "1 / 2 ^ 53" "1 + t"])
  show "is_double (1 / 2 ^ 53)" by (rule is_double_dyadic [of 1 53]) simp_all
  show "1 / 2 ^ 53 \<le> 1 + t" using assms by simp
next
  assume "binary64 (1 + t) = PInf"
  then show thesis using that(1) by (simp add: one_jsnum_def)
next
  fix s :: real assume s: "binary64 (1 + t) = Fin s" "1 / 2 ^ 53 \<le> s"
  have "(0::real) < 1 / 2 ^ 53" by simp
  with s(2) have "0 < s" by linarith
  with s(1) show thesis using that(2) by (simp add: one_jsnum_def)
qed

lemma mass_below:
  assumes "t \<le> - 1 - 1 / 2 ^ 52"
  obtains "1 + Fin t = NInf" | s where "1 + Fin t = Fin s" and "s < 0"
proof (rule binary64_upper [of "- (1 / 2 ^ 52)" "1 + t"])
  show "is_double (- (1 / 2 ^ 52))" by (rule is_double_dyadic [of "- 1" 52]) simp_all
  show "1 + t \<le> - (1 / 2 ^ 52)" using assms by simp
next
  assume "binary64 (1 + t) = NInf"
  then show thesis using that(1) by (simp add: one_jsnum_def)
next
  fix s :: real assume s: "binary64 (1 + t) = Fin s" "s \<le> - (1 / 2 ^ 52)"
  have "(0::real) < 1 / 2 ^ 52" by simp
  with s(2) have "s < 0" by linarith
  with s(1) show thesis using that(2) by (simp add: one_jsnum_def)
qed

lemma effectiveMass_cases:
  assumes "interactionStrength this = F" and "is_binary64 F" and "F \<noteq> NaN" and "F \<noteq> Fin (- 3)"
  obtains "effectiveMass this = PInf" | "effectiveMass this = NInf"
  | s where "effectiveMass this = Fin s" and "s \<noteq> 0"
proof (cases F)
  case NaN
  with assms(3) show ?thesis by simp
next
  case PInf
  then have "effectiveMass this = PInf"
    by (simp add: effectiveMass_def assms(1) lit_exact one_jsnum_def)
  then show ?thesis by (rule that(1))
next
  case NInf
  then have "effectiveMass this = NInf"
    by (simp add: effectiveMass_def assms(1) lit_exact one_jsnum_def)
  then show ?thesis by (rule that(2))
next
  case (Fin x)
  with assms have x: "is_double x" "x \<noteq> - 3" by simp_all
  have mass: "effectiveMass this = 1 + Fin x / lit 3"
    by (simp add: effectiveMass_def assms(1) Fin)
  from near_minus_three [OF x] show ?thesis
  proof
    assume "x \<le> - 3 - 1 / 2 ^ 51"
    then show ?thesis
    proof (cases rule: quotient_below)
      case 1
      then have "effectiveMass this = NInf" by (simp add: mass one_jsnum_def)
      then show ?thesis by (rule that(2))
    next
      case (2 t)
      from 2(2) show ?thesis
      proof (cases rule: mass_below)
        case 1
        then show ?thesis using that(2) by (simp add: mass 2(1))
      next
        case (2 s)
        then show ?thesis using that(3) [of s] \<open>Fin x / lit 3 = Fin t\<close> by (simp add: mass)
      qed
    qed
  next
    assume "- 3 + 1 / 2 ^ 51 \<le> x"
    then show ?thesis
    proof (cases rule: quotient_above)
      case 1
      then have "effectiveMass this = PInf" by (simp add: mass one_jsnum_def)
      then show ?thesis by (rule that(1))
    next
      case (2 t)
      from 2(2) show ?thesis
      proof (cases rule: mass_above)
        case 1
        then show ?thesis using that(1) by (simp add: mass 2(1))
      next
        case (2 s)
        then show ?thesis using that(3) [of s] \<open>Fin x / lit 3 = Fin t\<close> by (simp add: mass)
      qed
    qed
  qed
qed

lemma quasiparticle_k_50: "quasiparticle_k (lit 0.5) (lit 1.5) 100 50 = 1"
  by (simp add: quasiparticle_k_def jsnum_arith)

lemma quasiparticle_E_at_one:
  "quasiparticle_E m 1 = 1 \<longleftrightarrow> m \<noteq> NaN \<and> m \<noteq> 0"
  by (cases m) (simp_all add: quasiparticle_E_def jsnum_arith)

section \<open>Loops and canvases\<close>

lemma for_loop_eq: "for_loop i n body = concat (map body [i..<Suc n])"
proof (induction i n body rule: for_loop.induct)
  case (1 i n body)
  show ?case
  proof (cases "i \<le> n")
    case True
    then have "[i..<Suc n] = i # [Suc i..<Suc n]"
      by (simp add: upt_conv_Cons)
    with True "1" show ?thesis
      by (simp add: for_loop.simps [of i])
  next
    case False
    then show ?thesis by (simp add: for_loop.simps [of i])
  qed
qed

lemma for_loop_points:
  assumes "\<And>i. i \<le> n \<Longrightarrow> body i = [f i]"
  shows "for_loop 0 n body = map f [0..<Suc n]"
proof -
  have "map body [0..<Suc n] = map (\<lambda>i. [f i]) [0..<Suc n]"
    using assms by (intro map_cong) auto
  then show ?thesis by (simp only: for_loop_eq concat_map_singleton)
qed

lemma plot_margin_Fin:
  "plot_margin = \<lparr>margin_top = Fin 20, margin_right = Fin 20, margin_bottom = Fin 60,
     margin_left = Fin 60\<rparr>"
  by (simp add: plot_margin_def jsnum_arith)

lemma drawAxes_size:
  "snd (drawAxes w h m xl yl xm ym)
     = (w - margin_left m - margin_right m, h - margin_top m - margin_bottom m)"
  by (simp add: drawAxes_def Let_def)

lemma plot_area_500_400:
  "snd (drawAxes (lit 500) (lit 400) plot_margin xl yl xm ym) = (Fin 420, Fin 320)"
  by (simp add: drawAxes_size plot_margin_Fin jsnum_arith)

lemma draw_on_canvas:
  assumes "document g ident = Some (CanvasElement c)" and "context2d c = Some made"
  shows "getCanvasContext this g ident
           = Inr (g\<lparr>document := (document g)(ident \<mapsto>
                      CanvasElement (c\<lparr>canvas_width := lit 500, canvas_height := lit 400\<rparr>))\<rparr>,
                  Some (ident, c\<lparr>canvas_width := lit 500, canvas_height := lit 400\<rparr>))"
    and "draw (g\<lparr>document := (document g)(ident \<mapsto>
                  CanvasElement (c\<lparr>canvas_width := lit 500, canvas_height := lit 400\<rparr>))\<rparr>) ident
           (c\<lparr>canvas_width := lit 500, canvas_height := lit 400\<rparr>) cmds
           = Inr (g\<lparr>document := (document g)(ident \<mapsto> CanvasElement
                (c\<lparr>canvas_width := lit 500, canvas_height := lit 400,
                   context2d := Some (made @ cmds)\<rparr>))\<rparr>)"
  using assms by (simp_all add: getCanvasContext_def draw_def Let_def)

subsection \<open>The commands of the introductory plot\<close>

lemma intro_curve_point_eval:
  "intro_curve_point (lit 400) plot_margin (Fin 420) (Fin 320) 200 i
     = [let k = (num_of_nat i / num_of_nat 200) * lit 2;
            n = (if k \<le> 1 then 1 else 0);
            x = lit 60 + (k / lit 2) * lit 420;
            y = lit 400 - lit 60 - n * lit 320
        in if i = 0 then MoveTo x y else LineTo x y]"
  by (simp add: intro_curve_point_def intro_k_def plot_point_def Let_def plot_margin_Fin lit_exact)

lemma intro_sample_height:
  assumes "i \<le> 200"
  shows "(let k = (num_of_nat i / num_of_nat 200) * lit 2;
              n = (if k \<le> 1 then 1 else 0);
              x = lit 60 + (k / lit 2) * lit 420;
              y = lit 400 - lit 60 - n * lit 320
          in if i = 0 then MoveTo x y else LineTo x y)
       = (if i = 0 then MoveTo else LineTo)
           (lit 60 + ((num_of_nat i / num_of_nat 200) * lit 2 / lit 2) * lit 420)
           (if i \<le> 100 then Fin 20 else Fin 340)"
proof (cases "i \<le> 100")
  case True
  then obtain u where "intro_k 200 i = Fin u" and "u \<le> 1"
    by (rule intro_k_filled)
  with True show ?thesis
    unfolding intro_k_def by (simp add: Let_def jsnum_arith)
next
  case False
  with assms obtain u where "intro_k 200 i = Fin u" and "1 < u"
    using intro_k_empty [of i] by auto
  with False show ?thesis
    unfolding intro_k_def by (simp add: Let_def jsnum_arith)
qed

lemma intro_sample_momentum:
  assumes "i \<le> 200"
  shows "0 \<le> (num_of_nat i / num_of_nat 200) * lit 2
       \<and> (num_of_nat i / num_of_nat 200) * lit 2 \<le> lit 2
       \<and> ((num_of_nat i / num_of_nat 200) * lit 2 \<le> 1) = (i \<le> 100)"
proof (cases "i \<le> 100")
  case True
  then obtain u where "intro_k 200 i = Fin u" and "0 \<le> u" and "u \<le> 1"
    by (rule intro_k_filled)
  with True show ?thesis
    unfolding intro_k_def by (simp add: zero_jsnum_def one_jsnum_def lit_exact)
next
  case False
  with assms obtain u where "intro_k 200 i = Fin u" and "1 < u" and "u \<le> 2"
    using intro_k_empty [of i] by auto
  with False show ?thesis
    unfolding intro_k_def by (simp add: zero_jsnum_def one_jsnum_def lit_exact)
qed

lemma intro_after_curve_Stroke:
  "\<exists>post. intro_after_curve w h = Stroke # post"
  by (simp add: intro_after_curve_def Let_def case_prod_unfold)

lemma intro_before_curve_BeginPath:
  "\<exists>pre. intro_before_curve w h = pre @ [BeginPath]"
proof -
  have "intro_before_curve w h
      = ([ClearRect 0 0 w h] @ fst (drawAxes w h plot_margin ''k/kF'' ''n(k)'' (lit 2) 1)
         @ [SetStrokeStyle ''#3498db'', SetLineWidth (lit 3)]) @ [BeginPath]"
    by (simp add: intro_before_curve_def)
  then show ?thesis by blast
qed

lemma intro_commands_500_400:
  "\<exists>pre post. intro_commands (lit 500) (lit 400) =
     pre @ [BeginPath]
     @ map (\<lambda>i. let k = (num_of_nat i / num_of_nat 200) * lit 2;
                      n = (if k \<le> 1 then 1 else 0);
                      x = lit 60 + (k / lit 2) * lit 420;
                      y = lit 400 - lit 60 - n * lit 320
                  in if i = 0 then MoveTo x y else LineTo x y) [0..<201]
     @ [Stroke] @ post"
proof -
  have upt: "[0..<201] = [0..<Suc 200]" by simp
  obtain pre where pre: "intro_before_curve (lit 500) (lit 400) = pre @ [BeginPath]"
    using intro_before_curve_BeginPath by blast
  obtain post where post: "intro_after_curve (lit 500) (lit 400) = Stroke # post"
    using intro_after_curve_Stroke by blast
  have "intro_commands (lit 500) (lit 400) =
     intro_before_curve (lit 500) (lit 400)
     @ for_loop 0 200 (intro_curve_point (lit 400) plot_margin (Fin 420) (Fin 320) 200)
     @ intro_after_curve (lit 500) (lit 400)"
    by (simp only: intro_commands_def Let_def case_prod_unfold plot_area_500_400 fst_conv snd_conv)
  also have "for_loop 0 200 (intro_curve_point (lit 400) plot_margin (Fin 420) (Fin 320) 200)
      = map (\<lambda>i. let k = (num_of_nat i / num_of_nat 200) * lit 2;
                      n = (if k \<le> 1 then 1 else 0);
                      x = lit 60 + (k / lit 2) * lit 420;
                      y = lit 400 - lit 60 - n * lit 320
                  in if i = 0 then MoveTo x y else LineTo x y) [0..<201]"
    unfolding upt by (rule for_loop_points) (rule intro_curve_point_eval)
  finally show ?thesis unfolding pre post by auto
qed

subsection \<open>The commands of the quasiparticle plot\<close>

lemma quasiparticle_curve_point_eval:
  "quasiparticle_curve_point (effectiveMass this) (lit 400) plot_margin (Fin 420) (Fin 320)
       (lit 0.5) (lit 1.5) (lit 0.5) (lit 1.5) 100 i
     = [let k = lit 0.5 + (num_of_nat i / num_of_nat 100) * (lit 1.5 - lit 0.5);
            E = 1 + (k - 1) / (1 + interactionStrength this / lit 3);
            x = lit 60 + ((k - lit 0.5) / (lit 1.5 - lit 0.5)) * lit 420;
            y = lit 400 - lit 60 - ((E - lit 0.5) / (lit 1.5 - lit 0.5)) * lit 320
        in if i = 0 then MoveTo x y else LineTo x y]"
  by (simp add: quasiparticle_curve_point_def quasiparticle_k_def quasiparticle_E_def
      quasiparticle_xy_def effectiveMass_def plot_point_def Let_def plot_margin_Fin lit_exact)

lemma quasiparticle_after_curve_Stroke:
  "\<exists>post. quasiparticle_after_curve this w h = Stroke # post"
  by (simp add: quasiparticle_after_curve_def Let_def)

lemma quasiparticle_before_curve_BeginPath:
  "\<exists>pre. quasiparticle_before_curve w h = pre @ [BeginPath]"
proof -
  have "\<exists>a b. quasiparticle_before_curve w h = a @ b @ [Stroke, SetLineDash [],
      SetStrokeStyle ''#27ae60'', SetLineWidth (lit 3), BeginPath]"
    unfolding quasiparticle_before_curve_def Let_def by blast
  then obtain a b where "quasiparticle_before_curve w h
      = (a @ b @ [Stroke, SetLineDash [], SetStrokeStyle ''#27ae60'', SetLineWidth (lit 3)])
        @ [BeginPath]"
    by auto
  then show ?thesis by blast
qed

lemma quasiparticle_commands_500_400:
  "\<exists>pre post. quasiparticle_commands this (lit 500) (lit 400) =
     pre @ [BeginPath]
     @ map (\<lambda>i. let k = lit 0.5 + (num_of_nat i / num_of_nat 100) * (lit 1.5 - lit 0.5);
                      E = 1 + (k - 1) / (1 + interactionStrength this / lit 3);
                      x = lit 60 + ((k - lit 0.5) / (lit 1.5 - lit 0.5)) * lit 420;
                      y = lit 400 - lit 60 - ((E - lit 0.5) / (lit 1.5 - lit 0.5)) * lit 320
                  in if i = 0 then MoveTo x y else LineTo x y) [0..<101]
     @ [Stroke] @ post"
proof -
  have upt: "[0..<101] = [0..<Suc 100]" by simp
  have size: "lit 500 - margin_left plot_margin - margin_right plot_margin = Fin 420"
    "lit 400 - margin_top plot_margin - margin_bottom plot_margin = Fin 320"
    by (simp_all add: plot_margin_Fin jsnum_arith)
  obtain pre where pre: "quasiparticle_before_curve (lit 500) (lit 400) = pre @ [BeginPath]"
    using quasiparticle_before_curve_BeginPath by blast
  obtain post where post: "quasiparticle_after_curve this (lit 500) (lit 400) = Stroke # post"
    using quasiparticle_after_curve_Stroke by blast
  have "quasiparticle_commands this (lit 500) (lit 400) =
     quasiparticle_before_curve (lit 500) (lit 400)
     @ for_loop 0 100 (quasiparticle_curve_point (effectiveMass this) (lit 400) plot_margin
         (Fin 420) (Fin 320) (lit 0.5) (lit 1.5) (lit 0.5) (lit 1.5) 100)
     @ quasiparticle_after_curve this (lit 500) (lit 400)"
    by (simp only: quasiparticle_commands_def Let_def size)
  also have "for_loop 0 100 (quasiparticle_curve_point (effectiveMass this) (lit 400) plot_margin
         (Fin 420) (Fin 320) (lit 0.5) (lit 1.5) (lit 0.5) (lit 1.5) 100)
      = map (\<lambda>i. let k = lit 0.5 + (num_of_nat i / num_of_nat 100) * (lit 1.5 - lit 0.5);
                      E = 1 + (k - 1) / (1 + interactionStrength this / lit 3);
                      x = lit 60 + ((k - lit 0.5) / (lit 1.5 - lit 0.5)) * lit 420;
                      y = lit 400 - lit 60 - ((E - lit 0.5) / (lit 1.5 - lit 0.5)) * lit 320
                  in if i = 0 then MoveTo x y else LineTo x y) [0..<101]"
    unfolding upt by (rule for_loop_points) (rule quasiparticle_curve_point_eval)
  finally show ?thesis unfolding pre post by auto
qed

lemma energy_at_fermi_momentum:
  assumes "is_binary64 F"
  shows "(1 + (1 - 1) / (1 + F / lit 3) = (1::jsnum)) = (F \<noteq> Fin (- 3) \<and> F \<noteq> NaN)"
proof -
  define this where "this = initial_viz\<lparr>interactionStrength := F\<rparr>"
  have F: "interactionStrength this = F" by (simp add: this_def)
  have mass: "effectiveMass this = 1 + F / lit 3"
    by (simp add: effectiveMass_def F)
  have "(quasiparticle_E (effectiveMass this) 1 = 1) = (F \<noteq> Fin (- 3) \<and> F \<noteq> NaN)"
  proof (cases "F \<noteq> Fin (- 3) \<and> F \<noteq> NaN")
    case True
    then have "effectiveMass this \<noteq> NaN \<and> effectiveMass this \<noteq> 0"
      using effectiveMass_cases [OF F assms, of "effectiveMass this \<noteq> NaN \<and> effectiveMass this \<noteq> 0"]
      by (auto simp: zero_jsnum_def)
    with True show ?thesis by (simp add: quasiparticle_E_at_one)
  next
    case False
    then have "F = Fin (- 3) \<or> F = NaN" by simp
    then have "effectiveMass this = 0 \<or> effectiveMass this = NaN"
      by (auto simp: mass jsnum_arith)
    with False show ?thesis by (auto simp: quasiparticle_E_at_one)
  qed
  then show ?thesis by (simp only: quasiparticle_E_def mass)
qed

lemma fermi_point_sample:
  assumes "1 + (1 - 1) / (1 + F / lit 3) = (1::jsnum)"
  shows "(let k = lit 0.5 + (num_of_nat 50 / num_of_nat 100) * (lit 1.5 - lit 0.5);
              E = 1 + (k - 1) / (1 + F / lit 3);
              x = lit 60 + ((k - lit 0.5) / (lit 1.5 - lit 0.5)) * lit 420;
              y = lit 400 - lit 60 - ((E - lit 0.5) / (lit 1.5 - lit 0.5)) * lit 320
          in if (50::nat) = 0 then MoveTo x y else LineTo x y)
       = LineTo (Fin 270) (Fin 180)"
proof -
  have k: "lit 0.5 + (num_of_nat 50 / num_of_nat 100) * (lit 1.5 - lit 0.5) = 1"
    using quasiparticle_k_50 by (simp only: quasiparticle_k_def)
  have x: "lit 60 + ((1 - lit 0.5) / (lit 1.5 - lit 0.5)) * lit 420 = Fin 270"
    and y: "lit 400 - lit 60 - ((1 - lit 0.5) / (lit 1.5 - lit 0.5)) * lit 320 = Fin 180"
    by (simp_all add: jsnum_arith)
  show ?thesis
    by (simp only: Let_def k assms x y) simp
qed

subsection \<open>The largest power of two\<close>

lemma half_huge: "huge / 2 = real_of_int (2 ^ 52) * 2 powr real_of_int 971"
proof -
  have "huge / 2 = (2 ^ 53 / 2) * 2 powr 971" by (simp only: huge_eq times_divide_eq_left)
  also have "(2::real) ^ 53 / 2 = 2 ^ 52" by simp
  finally show ?thesis by simp
qed

lemma is_double_half_huge: "is_double (huge / 2)"
  unfolding half_huge by (rule is_doubleI) simp_all


lemma overflow_of_sum: "Fin (huge / 2) - Fin (- (huge / 2)) = PInf"
  by (simp add: Fin_minus binary64_def)

subsection \<open>The loop of the arrows ends\<close>

lemma math_PI_bounds:
  obtains p where "math_PI = Fin p" and "2 \<le> p" and "p \<le> 4"
proof -
  have "2 \<le> pi" and "pi \<le> 4" using pi_ge_two pi_less_4 by simp_all
  then obtain p where "binary64 pi = Fin p" and "2 \<le> p" and "p \<le> 4"
    using binary64_between [of 2 pi 4] by auto
  then show thesis using that by (simp add: math_PI_def lit_def)
qed

lemma angleStep_bounds:
  obtains s where "math_PI / lit 8 = Fin s" and "1 / 4 \<le> s"
proof -
  obtain p where p: "math_PI = Fin p" and "2 \<le> p" and "p \<le> 4" by (rule math_PI_bounds)
  have "1 / 4 \<le> p / 8" and "p / 8 \<le> 1 / 2" using \<open>2 \<le> p\<close> \<open>p \<le> 4\<close> by simp_all
  then obtain s where s: "binary64 (p / 8) = Fin s" and lo: "1 / 4 \<le> s" and "s \<le> 1 / 2"
    using binary64_between [OF is_double_quarter _ is_double_half] by blast
  have "math_PI / lit 8 = Fin s" by (simp add: p lit_exact s)
  then show thesis using lo by (rule that)
qed

lemma full_turn_bounds:
  obtains l where "lit 2 * math_PI = Fin l" and "l \<le> 8"
proof -
  obtain p where p: "math_PI = Fin p" and "2 \<le> p" and "p \<le> 4" by (rule math_PI_bounds)
  have "4 \<le> 2 * p" and "2 * p \<le> 8" using \<open>2 \<le> p\<close> \<open>p \<le> 4\<close> by simp_all
  then obtain l where l: "binary64 (2 * p) = Fin l" and "4 \<le> l" and hi: "l \<le> 8"
    using binary64_between [of 4 "2 * p" 8] by auto
  have "lit 2 * math_PI = Fin l" by (simp add: p lit_exact l)
  then show thesis using hi by (rule that)
qed

lemma angle_loop_ends:
  assumes "angle = PInf \<or> (\<exists>a. angle = Fin a \<and> real (33 - n) * (1 / 4) \<le> a)"
  shows "\<exists>arrows. angle_loop angle (math_PI / lit 8) body = Some arrows"
  using assms
proof (induction n arbitrary: angle)
  case 0
  obtain l where l: "lit 2 * math_PI = Fin l" and "l \<le> 8" by (rule full_turn_bounds)
  from 0 have "\<not> angle < Fin l" using \<open>l \<le> 8\<close> by auto
  then show ?case by (subst angle_loop.simps) (simp add: l)
next
  case (Suc n)
  show ?case
  proof (cases "angle < lit 2 * math_PI")
    case False
    then show ?thesis by (subst angle_loop.simps) simp
  next
    case True
    obtain l where l: "lit 2 * math_PI = Fin l" and "l \<le> 8" by (rule full_turn_bounds)
    obtain s where s: "math_PI / lit 8 = Fin s" and "1 / 4 \<le> s" by (rule angleStep_bounds)
    from True have "angle \<noteq> PInf" by (auto simp: l)
    with Suc.prems obtain a where a: "angle = Fin a" and lo: "real (33 - Suc n) * (1 / 4) \<le> a"
      by blast
    have d: "is_double (real (33 - n) * (1 / 4))"
      by (rule is_double_dyadic [of "int (33 - n)" 2]) simp_all
    have "real (33 - n) \<le> real (33 - Suc n) + 1" by simp
    then have "real (33 - n) * (1 / 4) \<le> a + s"
      using lo \<open>1 / 4 \<le> s\<close> by simp
    then have "angle + math_PI / lit 8 = PInf
        \<or> (\<exists>t. angle + math_PI / lit 8 = Fin t \<and> real (33 - n) * (1 / 4) \<le> t)"
      using binary64_lower [OF d, of "a + s"] unfolding a s by auto
    then obtain rest where "angle_loop (angle + math_PI / lit 8) (math_PI / lit 8) body = Some rest"
      using Suc.IH by blast
    with True show ?thesis by (subst angle_loop.simps) simp
  qed
qed

lemma interaction_commands_returns:
  "\<exists>cmds. interaction_commands m width height = Some cmds"
proof -
  have "(0::jsnum) = PInf \<or> (\<exists>a. (0::jsnum) = Fin a \<and> real (33 - 33) * (1 / 4) \<le> a)"
    by (simp add: zero_jsnum_def)
  then obtain arrows where
    "angle_loop 0 (math_PI / lit 8) (interaction_arrow m (width / lit 2) (height / lit 2) (lit 120))
       = Some arrows"
    using angle_loop_ends by blast
  then show ?thesis by (simp add: interaction_commands_def Let_def)
qed

lemma createInteractionVisualization_returns:
  "\<exists>r. createInteractionVisualization this g = Some r"
proof (cases "getCanvasContext this g ''interaction-viz''")
  case (Inl e)
  then show ?thesis by (simp add: createInteractionVisualization_def)
next
  case (Inr r)
  obtain g' found where r: "r = (g', found)" by (cases r)
  show ?thesis
  proof (cases found)
    case None
    with Inr r show ?thesis by (simp add: createInteractionVisualization_def)
  next
    case (Some made)
    obtain ident c where made: "made = (ident, c)" by (cases made)
    obtain cmds where "interaction_commands (Math g') (canvas_width c) (canvas_height c) = Some cmds"
      using interaction_commands_returns by blast
    with Inr r Some made show ?thesis
      by (cases "context2d c") (simp_all add: createInteractionVisualization_def)
  qed
qed

section \<open>Grids and splats\<close>

lemma cell_tabulate: "i < n \<Longrightarrow> j < n \<Longrightarrow> cell (tabulate n f) i j = f i j"
  by (simp add: cell_def tabulate_def)

lemma enforce_no_through_edges:
  assumes "i < n"
  shows "cell (fst (enforce_no_through n uv)) i 0 = 0"
    and "cell (fst (enforce_no_through n uv)) i (n - 1) = 0"
    and "cell (snd (enforce_no_through n uv)) 0 i = 0"
    and "cell (snd (enforce_no_through n uv)) (n - 1) i = 0"
  using assms by (simp_all add: enforce_no_through_def cell_tabulate)

lemma step_velocity:
  "\<exists>uv. vel_u (step nm sim) = fst (enforce_no_through (grid_N (params sim)) uv)
      \<and> vel_v (step nm sim) = snd (enforce_no_through (grid_N (params sim)) uv)"
  by (simp add: step_def project_def Let_def case_prod_unfold) blast

lemma params_step: "params (step nm sim) = params sim"
  by (simp add: step_def Let_def case_prod_unfold)

lemma params_steps: "params ((step nm ^^ k) sim) = params sim"
  by (induction k) (simp_all add: params_step)

lemma map_indexed_id:
  assumes "\<And>i. i < length xs \<Longrightarrow> f i (xs ! i) = xs ! i"
  shows "map (\<lambda>(i, x). f i x) (zip [0..<length xs] xs) = xs"
  using assms by (intro nth_equalityI) simp_all

lemma map_cells_id:
  assumes "\<And>i j. i < length g \<Longrightarrow> j < length (g ! i) \<Longrightarrow> f i j (g ! i ! j) = g ! i ! j"
  shows "map_cells f g = g"
proof -
  have row: "map (\<lambda>(j, x). f i j x) (zip [0..<length (g ! i)] (g ! i)) = g ! i"
    if "i < length g" for i
    using assms [OF that] by (rule map_indexed_id)
  show ?thesis
    unfolding map_cells_def
    using row by (intro nth_equalityI) simp_all
qed

lemma length_map_cells: "length (map_cells f g) = length g"
  by (simp add: map_cells_def)

lemma well_formed_map_cells: "well_formed n g \<Longrightarrow> well_formed n (map_cells f g)"
  by (auto simp: well_formed_def map_cells_def list_all_iff in_set_zip)

lemma well_formed_tabulate: "well_formed n (tabulate n f)"
  by (simp add: well_formed_def tabulate_def list_all_iff)

lemma well_formed_nth: "well_formed n g \<Longrightarrow> i < length g \<Longrightarrow> length g = n \<and> length (g ! i) = n"
  by (simp add: well_formed_def list_all_length)

lemma centre_distance:
  fixes c x :: real
  assumes "0 \<le> c" and "c \<le> 1"
  shows "(max (- x) (max 0 (x - 1)))\<^sup>2 \<le> (c - x)\<^sup>2"
proof -
  have "0 \<le> max (- x) (max 0 (x - 1))" by simp
  moreover have "max (- x) (max 0 (x - 1)) \<le> \<bar>c - x\<bar>" using assms by (simp add: max_def)
  ultimately have "(max (- x) (max 0 (x - 1)))\<^sup>2 \<le> \<bar>c - x\<bar>\<^sup>2"
    by (rule power_mono [rotated])
  then show ?thesis by simp
qed

lemma cell_centre_in_unit:
  assumes "j < n"
  shows "0 \<le> (real j + 1 / 2) / real n" and "(real j + 1 / 2) / real n \<le> 1"
proof -
  have n: "0 < real n" using assms by simp
  show "0 \<le> (real j + 1 / 2) / real n" by simp
  have "real j + 1 \<le> real n" using assms by linarith
  then have "real j + 1 / 2 \<le> real n" by linarith
  with n show "(real j + 1 / 2) / real n \<le> 1" by (simp add: divide_le_eq)
qed

lemma splat_misses_cell:
  assumes "radius s = 0 \<or> outside_domain s" and "i < n" and "j < n"
  shows "\<not> splat_distance n s i j < radius s"
  using assms(1)
proof
  assume zero: "radius s = 0"
  have "0 \<le> splat_distance n s i j"
    unfolding splat_distance_def by (intro real_sqrt_ge_zero add_nonneg_nonneg zero_le_power2)
  with zero show ?thesis by simp
next
  assume out: "outside_domain s"
  have "(max (- splat_x s) (max 0 (splat_x s - 1)))\<^sup>2 \<le> ((real j + 1 / 2) / real n - splat_x s)\<^sup>2"
    by (rule centre_distance [OF cell_centre_in_unit [OF assms(3)]])
  moreover
  have "(max (- splat_y s) (max 0 (splat_y s - 1)))\<^sup>2 \<le> ((real i + 1 / 2) / real n - splat_y s)\<^sup>2"
    by (rule centre_distance [OF cell_centre_in_unit [OF assms(2)]])
  ultimately have "sqrt ((max (- splat_x s) (max 0 (splat_x s - 1)))\<^sup>2
                      + (max (- splat_y s) (max 0 (splat_y s - 1)))\<^sup>2) \<le> splat_distance n s i j"
    unfolding splat_distance_def by (intro real_sqrt_le_mono add_mono)
  with out show ?thesis by (simp add: outside_domain_def)
qed

lemma splat_cell_noop:
  assumes "radius s = 0 \<or> outside_domain s" and "well_formed n g"
  shows "map_cells (splat_cell nm n s amount) g = g"
proof (rule map_cells_id)
  fix i j
  assume i: "i < length g" and j: "j < length (g ! i)"
  from well_formed_nth [OF assms(2) i] i j have "i < n" "j < n" by simp_all
  then show "splat_cell nm n s amount i j (g ! i ! j) = g ! i ! j"
    using splat_misses_cell [OF assms(1)] by (simp add: splat_cell_def)
qed

lemma apply_splat_noop:
  assumes "radius s = 0 \<or> outside_domain s"
    and "well_formed (grid_N prm) d" "well_formed (grid_N prm) u" "well_formed (grid_N prm) v"
  shows "apply_splat nm prm s (d, u, v) = (d, u, v)"
  using assms by (simp add: apply_splat_def splat_cell_noop)

lemma apply_splats_append:
  "apply_splats nm prm (ss @ [s]) flds = apply_splat nm prm s (apply_splats nm prm ss flds)"
  by (induction ss arbitrary: flds) simp_all

lemma fields_well_formed_apply_splat:
  "fields_well_formed n flds \<Longrightarrow> fields_well_formed n (apply_splat nm prm s flds)"
  by (cases flds) (simp add: fields_well_formed_def apply_splat_def well_formed_map_cells)

lemma fields_well_formed_apply_splats:
  "fields_well_formed n flds \<Longrightarrow> fields_well_formed n (apply_splats nm prm ss flds)"
  by (induction ss arbitrary: flds) (simp_all add: fields_well_formed_apply_splat)

lemma apply_splats_noop_last:
  assumes "radius s = 0 \<or> outside_domain s" and "fields_well_formed (grid_N prm) flds"
  shows "apply_splats nm prm (ss @ [s]) flds = apply_splats nm prm ss flds"
proof -
  obtain d u v where eq: "apply_splats nm prm ss flds = (d, u, v)"
    by (cases "apply_splats nm prm ss flds") auto
  have "fields_well_formed (grid_N prm) (d, u, v)"
    using fields_well_formed_apply_splats [OF assms(2), of nm prm ss] eq by simp
  then have "apply_splat nm prm s (d, u, v) = (d, u, v)"
    using apply_splat_noop [OF assms(1)] by (simp add: fields_well_formed_def)
  then show ?thesis by (simp add: apply_splats_append eq)
qed

lemma step_before_splats_well_formed:
  assumes "well_formed (grid_N (params sim)) (dye sim)"
  shows "fields_well_formed (grid_N (params sim))
     (dye sim,
      dissipate (vel_diss (params sim)) (dt (params sim))
        (fst (vorticity_confinement nm (params sim)
           (advect_vector nm (params sim) (vel_u sim, vel_v sim)))),
      dissipate (vel_diss (params sim)) (dt (params sim))
        (snd (vorticity_confinement nm (params sim)
           (advect_vector nm (params sim) (vel_u sim, vel_v sim)))))"
  using assms
  by (simp add: fields_well_formed_def dissipate_def vorticity_confinement_def
      enforce_no_through_def well_formed_map_cells well_formed_tabulate)

lemma well_formed_fresh_dye: "well_formed (grid_N prm) (dye (fresh_state nm seed prm))"
proof -
  have "fields_well_formed (grid_N prm)
      (tabulate (grid_N prm) (\<lambda>i j. 0), tabulate (grid_N prm) (\<lambda>i j. 0),
       tabulate (grid_N prm) (\<lambda>i j. 0))"
    by (simp add: fields_well_formed_def well_formed_tabulate)
  then have "fields_well_formed (grid_N prm)
      (apply_splats nm prm (seed_splats nm seed)
        (tabulate (grid_N prm) (\<lambda>i j. 0), tabulate (grid_N prm) (\<lambda>i j. 0),
         tabulate (grid_N prm) (\<lambda>i j. 0)))"
    by (rule fields_well_formed_apply_splats)
  then show ?thesis
    by (simp add: fresh_state_def Let_def case_prod_unfold fields_well_formed_def)
qed

lemma params_fresh_state: "params (fresh_state nm seed prm) = prm"
  by (simp add: fresh_state_def Let_def case_prod_unfold)

section \<open>The Fermi-Dirac curve\<close>







text \<open>
  C10, as the claim states it, fails. At the energy \<open>2^1023\<close>, the chemical potential
  \<open>-(2^1023)\<close> and the temperature +Infinity, which is at least 0, the difference
  \<open>E - mu\<close> overflows to +Infinity, the quotient of +Infinity by +Infinity is NaN, and
  the method returns NaN. It also returns NaN at the energy and the chemical potential
  +Infinity with the temperature 1. NaN is neither at least 0 nor at most 1.
\<close>

theorem fermiDirac_not_a_number:
  "(0::jsnum) \<le> PInf
   \<and> is_double (huge / 2)
   \<and> fermiDirac initial_viz empty_globals (Fin (huge / 2)) (Fin (- (huge / 2))) PInf = NaN
   \<and> (0::jsnum) \<le> Fin 1
   \<and> fermiDirac initial_viz empty_globals PInf PInf (Fin 1) = NaN
   \<and> \<not> (0::jsnum) \<le> NaN \<and> \<not> NaN \<le> (1::jsnum)"
proof -
  have a: "fermiDirac initial_viz empty_globals (Fin (huge / 2)) (Fin (- (huge / 2))) PInf = NaN"
    by (simp add: fermiDirac_def strict_eq_def overflow_of_sum empty_globals_def
        standard_math_def zero_jsnum_def one_jsnum_def)
  have b: "fermiDirac initial_viz empty_globals PInf PInf (Fin 1) = NaN"
    by (simp add: fermiDirac_def strict_eq_def minus_jsnum_def empty_globals_def
        standard_math_def zero_jsnum_def one_jsnum_def)
  have c: "(0::jsnum) \<le> PInf" "(0::jsnum) \<le> Fin 1" "\<not> (0::jsnum) \<le> NaN" "\<not> NaN \<le> (1::jsnum)"
    by (simp_all add: zero_jsnum_def one_jsnum_def)
  from a b c is_double_half_huge show ?thesis by (intro conjI)
qed

text \<open>
  C10, amended. With a \<open>Math.exp\<close> that meets the requirements of the language, for every
  energy, every chemical potential and every temperature, negative ones included:
  \<open>fermiDirac\<close> returns a number between 0 and 1 exactly when the temperature is 0 or the
  quotient \<open>(E - mu) / T\<close>, computed in binary64 arithmetic, is not NaN. At temperature 0
  the value is exactly 0 or exactly 1. The quotient is not NaN when the energy, the
  chemical potential and the temperature are finite and the temperature is not 0.
\<close>

theorem fermiDirac_occupation_range:
  assumes "conforming_exp (Math_exp (Math g))"
  shows "((0 \<le> fermiDirac this g E mu T \<and> fermiDirac this g E mu T \<le> 1)
            = (strict_eq T 0 \<or> (E - mu) / T \<noteq> NaN))
       \<and> (strict_eq T 0 \<longrightarrow> fermiDirac this g E mu T = 0 \<or> fermiDirac this g E mu T = 1)
       \<and> (t \<noteq> 0 \<longrightarrow> (Fin e - Fin m) / Fin t \<noteq> NaN)"
proof -
  have range: "(0 \<le> fermiDirac this g E mu T \<and> fermiDirac this g E mu T \<le> 1)
            = (strict_eq T 0 \<or> (E - mu) / T \<noteq> NaN)"
  proof (cases "strict_eq T 0")
    case True
    then show ?thesis by (simp add: fermiDirac_def jsnum_arith)
  next
    case False
    show ?thesis
    proof (cases "(E - mu) / T = NaN")
      case True
      with False have "fermiDirac this g E mu T = NaN"
        using not_in_unit_interval [OF assms] by (simp add: fermiDirac_def)
      with False True show ?thesis by (simp add: zero_jsnum_def)
    next
      case quotient: False
      with False show ?thesis
        using in_unit_interval [OF assms quotient] by (simp add: fermiDirac_def)
    qed
  qed
  have step: "strict_eq T 0 \<longrightarrow> fermiDirac this g E mu T = 0 \<or> fermiDirac this g E mu T = 1"
    by (simp add: fermiDirac_def)
  have finite: "t \<noteq> 0 \<longrightarrow> (Fin e - Fin m) / Fin t \<noteq> NaN"
    using finite_quotient_not_NaN [of t e m] by blast
  from range step finite show ?thesis by (intro conjI)
qed

theorem fermiDirac_occupation_range_witness:
  "conforming_exp (Math_exp (Math empty_globals))
   \<and> (2::real) \<noteq> 0
   \<and> (Fin 3 - Fin 1) / Fin 2 \<noteq> NaN
   \<and> 0 \<le> fermiDirac initial_viz empty_globals (Fin 3) (Fin 1) (Fin 2)
   \<and> fermiDirac initial_viz empty_globals (Fin 3) (Fin 1) (Fin 2) \<le> 1
   \<and> strict_eq (Fin 0) 0
   \<and> (fermiDirac initial_viz empty_globals (Fin 3) (Fin 1) (Fin 0) = 0
      \<or> fermiDirac initial_viz empty_globals (Fin 3) (Fin 1) (Fin 0) = 1)"
proof -
  have h: "conforming_exp (Math_exp (Math empty_globals))"
    by (simp add: empty_globals_def standard_math_def conforming_rounded_exp)
  have z: "strict_eq (Fin 0) 0"
    by (simp add: strict_eq_def zero_jsnum_def)
  have nz: "(2::real) \<noteq> 0" by simp
  have q: "(Fin 3 - Fin 1) / Fin 2 \<noteq> NaN"
    using fermiDirac_occupation_range [OF h, where t = 2 and e = 3 and m = 1] by simp
  have r: "0 \<le> fermiDirac initial_viz empty_globals (Fin 3) (Fin 1) (Fin 2)
      \<and> fermiDirac initial_viz empty_globals (Fin 3) (Fin 1) (Fin 2) \<le> 1"
    using fermiDirac_occupation_range [OF h, where T = "Fin 2" and E = "Fin 3" and mu = "Fin 1"
        and this = initial_viz] q
    by blast
  have s: "fermiDirac initial_viz empty_globals (Fin 3) (Fin 1) (Fin 0) = 0
      \<or> fermiDirac initial_viz empty_globals (Fin 3) (Fin 1) (Fin 0) = 1"
    using fermiDirac_occupation_range [OF h, where T = "Fin 0" and E = "Fin 3" and mu = "Fin 1"
        and this = initial_viz] z
    by blast
  from h nz q r z s show ?thesis by (intro conjI) simp_all
qed

section \<open>The plots\<close>

text \<open>
  C6. \<open>createIntroVisualization\<close> plots the momentum occupation as an exact step
  function. On a canvas \<open>intro-viz\<close> with a 2D context the method draws, between one
  \<open>beginPath\<close> and the \<open>stroke\<close> that follows it, one point for each of the 201 samples
  and nothing else: a \<open>moveTo\<close> for sample 0 and a \<open>lineTo\<close> for every other. Sample \<open>i\<close>
  has the momentum \<open>k = (i / 200) * 2\<close>, computed in binary64 arithmetic, which lies in
  [0, 2] and is at most 1 exactly for the samples up to 100; its point lies at the height
  20 of the occupation 1 if \<open>k \<le> 1\<close> and at the height 340 of the occupation 0 if
  \<open>k > 1\<close>.
\<close>

theorem createIntroVisualization_step_function:
  assumes "document g ''intro-viz'' = Some (CanvasElement c)"
    and "context2d c = Some made"
    and "i \<le> 200"
  shows "\<exists>pre post curve.
           curve = (\<lambda>i. let k = (num_of_nat i / num_of_nat 200) * lit 2;
                            n = (if k \<le> 1 then 1 else 0);
                            x = lit 60 + (k / lit 2) * lit 420;
                            y = lit 400 - lit 60 - n * lit 320
                        in if i = 0 then MoveTo x y else LineTo x y)
         \<and> createIntroVisualization this g
             = Inr (g\<lparr>document := (document g)(''intro-viz'' \<mapsto> CanvasElement
                 (c\<lparr>canvas_width := lit 500, canvas_height := lit 400,
                    context2d := Some (made @ pre @ [BeginPath] @ map curve [0..<201]
                                         @ [Stroke] @ post)\<rparr>))\<rparr>)
         \<and> curve i = (if i = 0 then MoveTo else LineTo)
                        (lit 60 + ((num_of_nat i / num_of_nat 200) * lit 2 / lit 2) * lit 420)
                        (if i \<le> 100 then Fin 20 else Fin 340)
         \<and> 0 \<le> (num_of_nat i / num_of_nat 200) * lit 2
         \<and> (num_of_nat i / num_of_nat 200) * lit 2 \<le> lit 2
         \<and> ((num_of_nat i / num_of_nat 200) * lit 2 \<le> 1) = (i \<le> 100)
         \<and> lit 400 - lit 60 - 1 * lit 320 = Fin 20
         \<and> lit 400 - lit 60 - 0 * lit 320 = Fin 340"
proof -
  define curve where "curve = (\<lambda>i. let k = (num_of_nat i / num_of_nat 200) * lit 2;
                            n = (if k \<le> 1 then 1 else 0);
                            x = lit 60 + (k / lit 2) * lit 420;
                            y = lit 400 - lit 60 - n * lit 320
                        in if i = 0 then MoveTo x y else LineTo x y)"
  obtain pre post where cmds: "intro_commands (lit 500) (lit 400) =
     pre @ [BeginPath] @ map curve [0..<201] @ [Stroke] @ post"
    using intro_commands_500_400 unfolding curve_def by blast
  have "createIntroVisualization this g
      = draw (g\<lparr>document := (document g)(''intro-viz'' \<mapsto>
                 CanvasElement (c\<lparr>canvas_width := lit 500, canvas_height := lit 400\<rparr>))\<rparr>)
          ''intro-viz'' (c\<lparr>canvas_width := lit 500, canvas_height := lit 400\<rparr>)
          (intro_commands (lit 500) (lit 400))"
    by (simp add: createIntroVisualization_def
        draw_on_canvas(1) [where g = g and c = c and made = made, OF assms(1,2)])
  then have "createIntroVisualization this g
      = Inr (g\<lparr>document := (document g)(''intro-viz'' \<mapsto> CanvasElement
          (c\<lparr>canvas_width := lit 500, canvas_height := lit 400,
             context2d := Some (made @ intro_commands (lit 500) (lit 400))\<rparr>))\<rparr>)"
    by (simp only: draw_on_canvas(2) [where g = g and c = c and made = made, OF assms(1,2)])
  then have drawn: "createIntroVisualization this g
             = Inr (g\<lparr>document := (document g)(''intro-viz'' \<mapsto> CanvasElement
                 (c\<lparr>canvas_width := lit 500, canvas_height := lit 400,
                    context2d := Some (made @ pre @ [BeginPath] @ map curve [0..<201]
                                         @ [Stroke] @ post)\<rparr>))\<rparr>)"
    by (simp only: cmds)
  have point: "curve i = (if i = 0 then MoveTo else LineTo)
                        (lit 60 + ((num_of_nat i / num_of_nat 200) * lit 2 / lit 2) * lit 420)
                        (if i \<le> 100 then Fin 20 else Fin 340)"
    unfolding curve_def by (rule intro_sample_height [OF assms(3)])
  have heights: "lit 400 - lit 60 - 1 * lit 320 = Fin 20" "lit 400 - lit 60 - 0 * lit 320 = Fin 340"
    by (simp_all add: jsnum_arith)
  from curve_def drawn point intro_sample_momentum [OF assms(3)] heights
  show ?thesis by blast
qed

theorem createIntroVisualization_step_function_witness:
  "document example_globals ''intro-viz'' = Some (CanvasElement blank_canvas)
   \<and> context2d blank_canvas = Some []
   \<and> (101::nat) \<le> 200
   \<and> (\<exists>pre post curve.
         createIntroVisualization initial_viz example_globals
           = Inr (example_globals\<lparr>document := (document example_globals)(''intro-viz'' \<mapsto>
               CanvasElement
               (blank_canvas\<lparr>canvas_width := lit 500, canvas_height := lit 400,
                  context2d := Some ([] @ pre @ [BeginPath] @ map curve [0..<201]
                                       @ [Stroke] @ post)\<rparr>))\<rparr>)
       \<and> curve 101 = LineTo (lit 60 + ((num_of_nat 101 / num_of_nat 200) * lit 2 / lit 2) * lit 420)
                        (Fin 340))
   \<and> \<not> (num_of_nat 101 / num_of_nat 200) * lit 2 \<le> 1"
proof -
  have doc: "document example_globals ''intro-viz'' = Some (CanvasElement blank_canvas)"
    by (simp add: example_globals_def)
  have ctx: "context2d blank_canvas = Some []"
    by (simp add: blank_canvas_def)
  have le: "(101::nat) \<le> 200" by simp
  obtain pre post curve where
    "createIntroVisualization initial_viz example_globals
           = Inr (example_globals\<lparr>document := (document example_globals)(''intro-viz'' \<mapsto>
               CanvasElement
               (blank_canvas\<lparr>canvas_width := lit 500, canvas_height := lit 400,
                  context2d := Some ([] @ pre @ [BeginPath] @ map curve [0..<201]
                                       @ [Stroke] @ post)\<rparr>))\<rparr>)"
    and "curve 101 = (if (101::nat) = 0 then MoveTo else LineTo)
                        (lit 60 + ((num_of_nat 101 / num_of_nat 200) * lit 2 / lit 2) * lit 420)
                        (if (101::nat) \<le> 100 then Fin 20 else Fin 340)"
    and "((num_of_nat 101 / num_of_nat 200) * lit 2 \<le> 1) = ((101::nat) \<le> 100)"
    using createIntroVisualization_step_function
      [where g = example_globals and c = blank_canvas and made = "[]" and i = 101
         and this = initial_viz, OF doc ctx le]
    by blast
  then have "(\<exists>pre post curve.
         createIntroVisualization initial_viz example_globals
           = Inr (example_globals\<lparr>document := (document example_globals)(''intro-viz'' \<mapsto>
               CanvasElement
               (blank_canvas\<lparr>canvas_width := lit 500, canvas_height := lit 400,
                  context2d := Some ([] @ pre @ [BeginPath] @ map curve [0..<201]
                                       @ [Stroke] @ post)\<rparr>))\<rparr>)
       \<and> curve 101 = LineTo (lit 60 + ((num_of_nat 101 / num_of_nat 200) * lit 2 / lit 2) * lit 420)
                        (Fin 340))"
    and "\<not> (num_of_nat 101 / num_of_nat 200) * lit 2 \<le> 1"
    by auto
  with doc ctx le show ?thesis by (intro conjI)
qed

text \<open>
  C7, as the claim states it, fails. At the interaction strength \<open>F = -3\<close> the effective
  mass \<open>1 + F / 3\<close> is 0; sample 50 has the momentum \<open>k = 1\<close>, the division
  \<open>(k - 1) / 0\<close> is \<open>0 / 0\<close>, and the energy plotted there is NaN, not 1.
\<close>

theorem quasiparticle_energy_at_zero_mass:
  "quasiparticle_k (lit 0.5) (lit 1.5) 100 50 = 1
   \<and> effectiveMass (initial_viz\<lparr>interactionStrength := Fin (- 3)\<rparr>) = 0
   \<and> quasiparticle_E (effectiveMass (initial_viz\<lparr>interactionStrength := Fin (- 3)\<rparr>))
        (quasiparticle_k (lit 0.5) (lit 1.5) 100 50) = NaN
   \<and> quasiparticle_E (effectiveMass (initial_viz\<lparr>interactionStrength := Fin (- 3)\<rparr>))
        (quasiparticle_k (lit 0.5) (lit 1.5) 100 50) \<noteq> 1
   \<and> quasiparticle_curve_point (effectiveMass (initial_viz\<lparr>interactionStrength := Fin (- 3)\<rparr>))
        (lit 400) plot_margin (lit 420) (lit 320) (lit 0.5) (lit 1.5) (lit 0.5) (lit 1.5) 100 50
      = [LineTo (Fin 270) NaN]"
  by (simp add: quasiparticle_k_def quasiparticle_E_def effectiveMass_def initial_viz_def
      quasiparticle_curve_point_def quasiparticle_xy_def plot_margin_Fin plot_point_def
      jsnum_arith minus_jsnum_def)

text \<open>
  C7, amended. For every interaction strength \<open>F\<close> other than -3 and NaN, the two
  infinities included, the curve that \<open>updateQuasiparticleViz\<close> plots passes through the
  Fermi point. On a canvas \<open>quasiparticle-viz\<close> with a 2D context the method draws, between
  one \<open>beginPath\<close> and the \<open>stroke\<close> that follows it, one point for each of the 101
  samples: sample \<open>i\<close> has the momentum \<open>k = 0.5 + (i / 100) * (1.5 - 0.5)\<close> and the energy
  \<open>E = 1 + (k - 1) / m*\<close> with the effective mass \<open>m* = 1 + F / 3\<close>, all computed in
  binary64 arithmetic. Sample 50 has \<open>k = 1\<close> exactly; the energy at \<open>k = 1\<close> is exactly
  1 if and only if \<open>F\<close> is neither -3 nor NaN, and then the point of sample 50 is the
  place (270, 180) of \<open>(k, E) = (1, 1)\<close> on the canvas.
\<close>

theorem updateQuasiparticleViz_dispersion:
  assumes "document g ''quasiparticle-viz'' = Some (CanvasElement c)"
    and "context2d c = Some made"
    and "interactionStrength this = F"
    and "is_binary64 F"
  shows "\<exists>pre post curve.
           curve = (\<lambda>i. let k = lit 0.5 + (num_of_nat i / num_of_nat 100) * (lit 1.5 - lit 0.5);
                            E = 1 + (k - 1) / (1 + F / lit 3);
                            x = lit 60 + ((k - lit 0.5) / (lit 1.5 - lit 0.5)) * lit 420;
                            y = lit 400 - lit 60 - ((E - lit 0.5) / (lit 1.5 - lit 0.5)) * lit 320
                        in if i = 0 then MoveTo x y else LineTo x y)
         \<and> updateQuasiparticleViz this g
             = Inr (g\<lparr>document := (document g)(''quasiparticle-viz'' \<mapsto> CanvasElement
                 (c\<lparr>canvas_width := lit 500, canvas_height := lit 400,
                    context2d := Some (made @ pre @ [BeginPath] @ map curve [0..<101]
                                         @ [Stroke] @ post)\<rparr>))\<rparr>)
         \<and> lit 0.5 + (num_of_nat 50 / num_of_nat 100) * (lit 1.5 - lit 0.5) = 1
         \<and> (1 + (1 - 1) / (1 + F / lit 3) = (1::jsnum)) = (F \<noteq> Fin (- 3) \<and> F \<noteq> NaN)
         \<and> (F \<noteq> Fin (- 3) \<and> F \<noteq> NaN \<longrightarrow> curve 50 = LineTo (Fin 270) (Fin 180))"
proof -
  define curve where "curve = (\<lambda>i. let k = lit 0.5 + (num_of_nat i / num_of_nat 100) * (lit 1.5 - lit 0.5);
                            E = 1 + (k - 1) / (1 + F / lit 3);
                            x = lit 60 + ((k - lit 0.5) / (lit 1.5 - lit 0.5)) * lit 420;
                            y = lit 400 - lit 60 - ((E - lit 0.5) / (lit 1.5 - lit 0.5)) * lit 320
                        in if i = 0 then MoveTo x y else LineTo x y)"
  obtain pre post where cmds: "quasiparticle_commands this (lit 500) (lit 400) =
     pre @ [BeginPath] @ map curve [0..<101] @ [Stroke] @ post"
    using quasiparticle_commands_500_400 [of this] unfolding curve_def assms(3) by blast
  have "updateQuasiparticleViz this g
      = draw (g\<lparr>document := (document g)(''quasiparticle-viz'' \<mapsto>
                 CanvasElement (c\<lparr>canvas_width := lit 500, canvas_height := lit 400\<rparr>))\<rparr>)
          ''quasiparticle-viz'' (c\<lparr>canvas_width := lit 500, canvas_height := lit 400\<rparr>)
          (quasiparticle_commands this (lit 500) (lit 400))"
    by (simp add: updateQuasiparticleViz_def
        draw_on_canvas(1) [where g = g and c = c and made = made, OF assms(1,2)])
  then have "updateQuasiparticleViz this g
      = Inr (g\<lparr>document := (document g)(''quasiparticle-viz'' \<mapsto> CanvasElement
          (c\<lparr>canvas_width := lit 500, canvas_height := lit 400,
             context2d := Some (made @ quasiparticle_commands this (lit 500) (lit 400))\<rparr>))\<rparr>)"
    by (simp only: draw_on_canvas(2) [where g = g and c = c and made = made, OF assms(1,2)])
  then have drawn: "updateQuasiparticleViz this g
             = Inr (g\<lparr>document := (document g)(''quasiparticle-viz'' \<mapsto> CanvasElement
                 (c\<lparr>canvas_width := lit 500, canvas_height := lit 400,
                    context2d := Some (made @ pre @ [BeginPath] @ map curve [0..<101]
                                         @ [Stroke] @ post)\<rparr>))\<rparr>)"
    by (simp only: cmds)
  have k: "lit 0.5 + (num_of_nat 50 / num_of_nat 100) * (lit 1.5 - lit 0.5) = 1"
    using quasiparticle_k_50 by (simp only: quasiparticle_k_def)
  have energy: "(1 + (1 - 1) / (1 + F / lit 3) = (1::jsnum)) = (F \<noteq> Fin (- 3) \<and> F \<noteq> NaN)"
    by (rule energy_at_fermi_momentum [OF assms(4)])
  have through: "F \<noteq> Fin (- 3) \<and> F \<noteq> NaN \<longrightarrow> curve 50 = LineTo (Fin 270) (Fin 180)"
    using energy fermi_point_sample [of F] unfolding curve_def by blast
  from curve_def drawn k energy through show ?thesis by blast
qed

theorem updateQuasiparticleViz_dispersion_witness:
  "document example_globals ''quasiparticle-viz'' = Some (CanvasElement blank_canvas)
   \<and> context2d blank_canvas = Some []
   \<and> interactionStrength initial_viz = Fin 0
   \<and> is_binary64 (Fin 0)
   \<and> Fin 0 \<noteq> Fin (- 3) \<and> Fin 0 \<noteq> NaN
   \<and> (\<exists>pre post curve.
         updateQuasiparticleViz initial_viz example_globals
           = Inr (example_globals\<lparr>document := (document example_globals)(''quasiparticle-viz'' \<mapsto>
               CanvasElement
               (blank_canvas\<lparr>canvas_width := lit 500, canvas_height := lit 400,
                  context2d := Some ([] @ pre @ [BeginPath] @ map curve [0..<101]
                                       @ [Stroke] @ post)\<rparr>))\<rparr>)
       \<and> curve 50 = LineTo (Fin 270) (Fin 180))
   \<and> 1 + (1 - 1) / (1 + Fin 0 / lit 3) = (1::jsnum)
   \<and> interactionStrength (initial_viz\<lparr>interactionStrength := PInf\<rparr>) = PInf
   \<and> is_binary64 PInf
   \<and> 1 + (1 - 1) / (1 + PInf / lit 3) = (1::jsnum)"
proof -
  have doc: "document example_globals ''quasiparticle-viz'' = Some (CanvasElement blank_canvas)"
    by (simp add: example_globals_def)
  have ctx: "context2d blank_canvas = Some []"
    by (simp add: blank_canvas_def)
  have F: "interactionStrength initial_viz = Fin 0"
    by (simp add: initial_viz_def zero_jsnum_def)
  have F': "interactionStrength (initial_viz\<lparr>interactionStrength := PInf\<rparr>) = PInf"
    by simp
  have d: "is_binary64 (Fin 0)" and d': "is_binary64 PInf" by simp_all
  have ne: "Fin 0 \<noteq> Fin (- 3) \<and> Fin 0 \<noteq> NaN" by simp
  obtain pre post curve where
    "updateQuasiparticleViz initial_viz example_globals
           = Inr (example_globals\<lparr>document := (document example_globals)(''quasiparticle-viz'' \<mapsto>
               CanvasElement
               (blank_canvas\<lparr>canvas_width := lit 500, canvas_height := lit 400,
                  context2d := Some ([] @ pre @ [BeginPath] @ map curve [0..<101]
                                       @ [Stroke] @ post)\<rparr>))\<rparr>)"
    and "Fin 0 \<noteq> Fin (- 3) \<and> Fin 0 \<noteq> NaN \<longrightarrow> curve 50 = LineTo (Fin 270) (Fin 180)"
    and zero: "(1 + (1 - 1) / (1 + Fin 0 / lit 3) = (1::jsnum))
        = (Fin 0 \<noteq> Fin (- 3) \<and> Fin 0 \<noteq> NaN)"
    using updateQuasiparticleViz_dispersion
      [where g = example_globals and c = blank_canvas and made = "[]" and F = "Fin 0"
         and this = initial_viz, OF doc ctx F d]
    by blast
  with ne have path: "\<exists>pre post curve.
         updateQuasiparticleViz initial_viz example_globals
           = Inr (example_globals\<lparr>document := (document example_globals)(''quasiparticle-viz'' \<mapsto>
               CanvasElement
               (blank_canvas\<lparr>canvas_width := lit 500, canvas_height := lit 400,
                  context2d := Some ([] @ pre @ [BeginPath] @ map curve [0..<101]
                                       @ [Stroke] @ post)\<rparr>))\<rparr>)
       \<and> curve 50 = LineTo (Fin 270) (Fin 180)"
    by blast
  have inf: "(1 + (1 - 1) / (1 + PInf / lit 3) = (1::jsnum))
        = (PInf \<noteq> Fin (- 3) \<and> PInf \<noteq> NaN)"
    using updateQuasiparticleViz_dispersion
      [where g = example_globals and c = blank_canvas and made = "[]" and F = PInf
         and this = "initial_viz\<lparr>interactionStrength := PInf\<rparr>", OF doc ctx F' d']
    by blast
  from zero have zero': "1 + (1 - 1) / (1 + Fin 0 / lit 3) = (1::jsnum)" by simp
  from inf have inf': "1 + (1 - 1) / (1 + PInf / lit 3) = (1::jsnum)" by simp
  from doc ctx F d ne path zero' F' d' inf' show ?thesis by (intro conjI) simp_all
qed

section \<open>A missing canvas\<close>

text \<open>
  C9, as the claim states it, fails. A document can hold, under the requested id, an
  element that is not a canvas. Then the document contains no canvas element of that id,
  yet \<open>getElementById\<close> returns the element, the guard lets it pass, and the call of
  \<open>getContext\<close>, which the element does not have, throws: \<open>getCanvasContext\<close> and
  the visualization method that called it end in a TypeError.
\<close>

theorem non_canvas_element_throws:
  "document div_globals ''intro-viz'' = Some OtherElement
   \<and> getCanvasContext initial_viz div_globals ''intro-viz'' = Inl TypeError
   \<and> createIntroVisualization initial_viz div_globals = Inl TypeError"
  by (simp add: div_globals_def getCanvasContext_def createIntroVisualization_def)

text \<open>
  C9, amended. If the document has no element of the requested id, \<open>getCanvasContext\<close>
  returns \<open>null\<close> and leaves the global state as it is, and each of the five
  visualization methods that call it returns without an error and without drawing: the
  global state, the document in it, is unchanged.
\<close>

theorem missing_canvas_is_noop:
  "(document g ident = None \<longrightarrow> getCanvasContext this g ident = Inr (g, None))
   \<and> (document g ''intro-viz'' = None \<longrightarrow> createIntroVisualization this g = Inr g)
   \<and> (document g ''fermi-sphere-viz'' = None \<longrightarrow> updateFermiSphereViz this g = Inr g)
   \<and> (document g ''quasiparticle-viz'' = None \<longrightarrow> updateQuasiparticleViz this g = Inr g)
   \<and> (document g ''interaction-viz'' = None
        \<longrightarrow> createInteractionVisualization this g = Some (Inr g))
   \<and> (document g ''transport-viz'' = None \<longrightarrow> createTransportVisualization this g = Inr g)"
  by (simp add: getCanvasContext_def createIntroVisualization_def updateFermiSphereViz_def
      updateQuasiparticleViz_def createInteractionVisualization_def
      createTransportVisualization_def)

theorem missing_canvas_is_noop_witness:
  "document example_globals ''transport-viz'' = None
   \<and> getCanvasContext initial_viz example_globals ''transport-viz'' = Inr (example_globals, None)
   \<and> createTransportVisualization initial_viz example_globals = Inr example_globals
   \<and> createIntroVisualization initial_viz empty_globals = Inr empty_globals
   \<and> updateFermiSphereViz initial_viz example_globals = Inr example_globals
   \<and> updateQuasiparticleViz initial_viz empty_globals = Inr empty_globals
   \<and> createInteractionVisualization initial_viz example_globals = Some (Inr example_globals)"
  using missing_canvas_is_noop [of example_globals "''transport-viz''" initial_viz]
    missing_canvas_is_noop [of empty_globals "''transport-viz''" initial_viz]
  by (simp add: example_globals_def empty_globals_def)

section \<open>The fluid solver's claims\<close>

text \<open>
  C3. After every \<open>step()\<close> of the driver, the velocity component normal to each of the
  four edges of the domain is exactly zero: in the state after any number of steps that is
  at least one, from any state, u is zero in the first and the last column of every row and
  v is zero in the first and the last row of every column.
\<close>

theorem step_no_through:
  assumes "i < grid_N (params sim)"
  shows "cell (vel_u ((step nm ^^ Suc k) sim)) i 0 = 0
       \<and> cell (vel_u ((step nm ^^ Suc k) sim)) i (grid_N (params sim) - 1) = 0
       \<and> cell (vel_v ((step nm ^^ Suc k) sim)) 0 i = 0
       \<and> cell (vel_v ((step nm ^^ Suc k) sim)) (grid_N (params sim) - 1) i = 0"
proof -
  define before where "before = (step nm ^^ k) sim"
  have n: "grid_N (params before) = grid_N (params sim)"
    by (simp add: before_def params_steps)
  obtain uv where u: "vel_u (step nm before) = fst (enforce_no_through (grid_N (params sim)) uv)"
    and v: "vel_v (step nm before) = snd (enforce_no_through (grid_N (params sim)) uv)"
    using step_velocity [of nm before] n by auto
  have after: "(step nm ^^ Suc k) sim = step nm before"
    by (simp add: before_def)
  show ?thesis
    unfolding after u v using enforce_no_through_edges [OF assms] by simp
qed

theorem step_no_through_witness:
  "1 < grid_N (params example_sim)
   \<and> cell (vel_u ((step example_numerics ^^ Suc 1) example_sim)) 1 0 = 0
   \<and> cell (vel_u ((step example_numerics ^^ Suc 1) example_sim)) 1 (grid_N (params example_sim) - 1) = 0
   \<and> cell (vel_v ((step example_numerics ^^ Suc 1) example_sim)) 0 1 = 0
   \<and> cell (vel_v ((step example_numerics ^^ Suc 1) example_sim)) (grid_N (params example_sim) - 1) 1 = 0"
proof -
  have h: "1 < grid_N (params example_sim)"
    by (simp add: example_sim_def params_fresh_state example_parameters_def)
  show ?thesis
    using h step_no_through [OF h, where nm = example_numerics and k = 1] by simp
qed

text \<open>
  C4. The step counter is 0 immediately after a construction that succeeds and
  immediately after \<open>reset()\<close>, and every \<open>step()\<close> increments it by exactly 1.
\<close>

theorem step_counter:
  "(construct nm seed prm = Inr sim \<longrightarrow> step_count (get_stats sim) = 0)
   \<and> step_count (get_stats (reset nm seed' sim')) = 0
   \<and> step_count (get_stats (step nm sim'')) = step_count (get_stats sim'') + 1"
proof -
  have fresh: "step_count (get_stats (fresh_state nm seed p)) = 0" for p
    by (simp add: fresh_state_def get_stats_def Let_def case_prod_unfold)
  have "construct nm seed prm = Inr sim \<longrightarrow> step_count (get_stats sim) = 0"
    using fresh by (auto simp: construct_def split: if_splits)
  moreover have "step_count (get_stats (reset nm seed' sim')) = 0"
    by (simp add: reset_def fresh_state_def get_stats_def Let_def case_prod_unfold)
  moreover have "step_count (get_stats (step nm sim'')) = step_count (get_stats sim'') + 1"
    by (simp add: step_def get_stats_def Let_def case_prod_unfold)
  ultimately show ?thesis by simp
qed

theorem step_counter_witness:
  "construct example_numerics 0 example_parameters = Inr example_sim
   \<and> step_count (get_stats example_sim) = 0
   \<and> step_count (get_stats (reset example_numerics 1 (step example_numerics example_sim))) = 0
   \<and> step_count (get_stats (step example_numerics example_sim)) = 1"
proof -
  have h: "construct example_numerics 0 example_parameters = Inr example_sim"
    by (simp add: construct_def example_parameters_def example_sim_def)
  show ?thesis
    using h
      step_counter [where nm = example_numerics and seed = 0 and prm = example_parameters
        and sim = example_sim and seed' = 1 and sim' = "step example_numerics example_sim"
        and sim'' = example_sim]
    by simp
qed

text \<open>
  C5. A splat whose radius is 0, or whose support lies entirely outside the unit square,
  leaves the dye, the u-velocity and the v-velocity unchanged and is no error: applied to
  fields of the grid's size it returns them as they are, \<open>add_splat\<close> changes no field,
  and the next step of a simulation that has queued it ends in the state it would have
  ended in without it.
\<close>

theorem noop_splat:
  assumes "radius s = 0 \<or> outside_domain s"
    and "well_formed (grid_N prm) d" "well_formed (grid_N prm) u" "well_formed (grid_N prm) v"
    and "well_formed (grid_N (params sim)) (dye sim)"
  shows "apply_splat nm prm s (d, u, v) = (d, u, v)
       \<and> get_fields (add_splat s sim) = get_fields sim
       \<and> step nm (add_splat s sim) = step nm sim"
proof -
  have one: "apply_splat nm prm s (d, u, v) = (d, u, v)"
    by (rule apply_splat_noop [OF assms(1-4)])
  have now: "get_fields (add_splat s sim) = get_fields sim"
    by (simp add: get_fields_def add_splat_def)
  have later: "step nm (add_splat s sim) = step nm sim"
    using apply_splats_noop_last [OF assms(1) step_before_splats_well_formed [OF assms(5)],
        of nm "queued sim" nm]
    by (simp add: step_def add_splat_def Let_def)
  from one now later show ?thesis by (intro conjI)
qed

theorem noop_splat_witness:
  "radius point_splat = 0
   \<and> outside_domain far_splat
   \<and> apply_splat example_numerics example_parameters point_splat (zero_grid, zero_grid, zero_grid)
       = (zero_grid, zero_grid, zero_grid)
   \<and> apply_splat example_numerics example_parameters far_splat (zero_grid, zero_grid, zero_grid)
       = (zero_grid, zero_grid, zero_grid)
   \<and> step example_numerics (add_splat point_splat example_sim) = step example_numerics example_sim
   \<and> step example_numerics (add_splat far_splat example_sim) = step example_numerics example_sim"
proof -
  have point: "radius point_splat = 0 \<or> outside_domain point_splat"
    by (simp add: point_splat_def)
  have out: "outside_domain far_splat"
    by (simp add: outside_domain_def far_splat_def)
  then have far: "radius far_splat = 0 \<or> outside_domain far_splat" ..
  have n: "grid_N example_parameters = 3"
    by (simp add: example_parameters_def)
  have grid: "well_formed (grid_N example_parameters) zero_grid"
    unfolding n zero_grid_def by (rule well_formed_tabulate)
  have dye: "well_formed (grid_N (params example_sim)) (dye example_sim)"
    unfolding example_sim_def params_fresh_state by (rule well_formed_fresh_dye)
  show ?thesis
    using noop_splat [OF point grid grid grid dye, where nm = example_numerics]
      noop_splat [OF far grid grid grid dye, where nm = example_numerics] out
    by (simp add: point_splat_def)
qed

end
